theory Spec2Isabelle
  imports Complex_Main "HOL-Library.Word"
begin

section \<open>Data model of \<open>data_augment.py\<close>\<close>

text \<open>
  A canvas is a numpy array of rank 3. Its shape is kept next to its elements, because
  numpy keeps the width and the depth of an array that has no rows (a slice can be empty):
  \<open>shape0\<close> rows, \<open>shape1\<close> columns, \<open>shape2\<close> channels, and \<open>elems\<close> the rows,
  each a list of pixels, each a list of channel values.
\<close>

type_synonym u8 = "8 word"

record 'a ndarray =
  shape0 :: nat
  shape1 :: nat
  shape2 :: nat
  elems :: "'a list list list"

text \<open>The shape fields agree with the nested lists.\<close>

definition wf :: "'a ndarray \<Rightarrow> bool" where
  "wf a \<longleftrightarrow>
     length (elems a) = shape0 a \<and>
     list_all (\<lambda>r. length r = shape1 a \<and> list_all (\<lambda>p. length p = shape2 a) r) (elems a)"

text \<open>\<open>a[i, j, k]\<close> for indices in range.\<close>

definition elem_at :: "'a ndarray \<Rightarrow> nat \<Rightarrow> nat \<Rightarrow> nat \<Rightarrow> 'a" where
  "elem_at a i j k = elems a ! i ! j ! k"

text \<open>An elementwise operation: the shape stays, every element is mapped.\<close>

definition map_elems :: "('a \<Rightarrow> 'b) \<Rightarrow> 'a ndarray \<Rightarrow> 'b ndarray" where
  "map_elems f a =
     \<lparr>shape0 = shape0 a, shape1 = shape1 a, shape2 = shape2 a,
      elems = map (map (map f)) (elems a)\<rparr>"

text \<open>All elements in row-major order.\<close>

definition flat :: "'a ndarray \<Rightarrow> 'a list" where
  "flat a = concat (concat (elems a))"

text \<open>
  The values that leave \<open>random_transform\<close> are uint8 arrays or float64 arrays
  (\<open>random_hue\<close> returns \<open>img_rgb*255\<close>, a float64 array). A float64 value is modelled by
  the real number it denotes; the rounding of a float64 operation is the collaborator
  \<open>fl64\<close> below, applied to the exact result. Infinities and NaN are left out.
\<close>

datatype arr = U8 "u8 ndarray" | F64 "real ndarray"

datatype error = IndexError | ZeroDivisionError | ValueError


section \<open>Collaborators\<close>

text \<open>
  The module calls numpy's random source, scipy's resampling and rotation and skimage's
  colour conversions. They are parameters of the model. The random source is a state
  \<open>'g\<close> that every draw advances.
  \<^item> \<open>np_uniform lo hi\<close> is \<open>np.random.uniform(lo, hi)\<close>, \<open>np_randn\<close> is \<open>np.random.randn(1)\<close>;
  \<^item> \<open>fl64\<close> rounds an exact result to float64;
  \<^item> \<open>imresize_factor a f\<close> is \<open>scipy.misc.imresize(a, f, interp='bicubic')\<close> with a float
    \<open>f\<close>: it returns a uint8 array, or \<open>None\<close> where the call raises ValueError (the
    factor leaves a side of the image without a pixel);
  \<^item> \<open>imresize_size a h w\<close> is \<open>scipy.misc.imresize(a, [h, w], interp='bicubic')\<close>, which
    returns a uint8 array;
  \<^item> \<open>ndimage_rotate a angle\<close> is \<open>scipy.ndimage.interpolation.rotate(a, angle)\<close>;
  \<^item> \<open>rgb2hsv\<close>, \<open>hsv2rgb\<close> are skimage's conversions, on float64 values in [0, 1].
\<close>

record 'g collab =
  np_uniform :: "real \<Rightarrow> real \<Rightarrow> 'g \<Rightarrow> real \<times> 'g"
  np_randn :: "'g \<Rightarrow> real \<times> 'g"
  fl64 :: "real \<Rightarrow> real"
  imresize_factor :: "u8 ndarray \<Rightarrow> real \<Rightarrow> u8 ndarray option"
  imresize_size :: "arr \<Rightarrow> nat \<Rightarrow> nat \<Rightarrow> u8 ndarray"
  ndimage_rotate :: "arr \<Rightarrow> real \<Rightarrow> arr"
  rgb2hsv :: "u8 ndarray \<Rightarrow> real ndarray"
  hsv2rgb :: "real ndarray \<Rightarrow> real ndarray"

section \<open>\<open>invert_img\<close>\<close>

text \<open>
  \<open>return 255 - img\<close>, elementwise, in the element type of the array: uint8 arithmetic
  on a uint8 array, float64 arithmetic on a float64 array.
\<close>

fun invert_img :: "'g collab \<Rightarrow> arr \<Rightarrow> arr" where
  "invert_img env (U8 img) = U8 (map_elems (\<lambda>x. 255 - x) img)"
| "invert_img env (F64 img) = F64 (map_elems (\<lambda>x. fl64 env (255 - x)) img)"

section \<open>\<open>random_scale\<close>\<close>

text \<open>\<open>np.sum(img, axis=(1,2))\<close> and \<open>np.sum(img, axis=(0,2))\<close>: numpy adds uint8 values in
  a wide unsigned accumulator, here a natural number.\<close>

definition row_sum :: "u8 ndarray \<Rightarrow> nat list" where
  "row_sum img =
     map (\<lambda>i. sum_list (map (\<lambda>p. sum_list (map unat p)) (elems img ! i))) [0..<shape0 img]"

definition col_sum :: "u8 ndarray \<Rightarrow> nat list" where
  "col_sum img =
     map (\<lambda>j. sum_list (map (\<lambda>r. sum_list (map unat (r ! j))) (elems img))) [0..<shape1 img]"

text \<open>\<open>np.where(s != 0)[0]\<close>: the indices of the nonzero sums, ascending.\<close>

definition where_nonzero :: "nat list \<Rightarrow> int list" where
  "where_nonzero s = map int (filter (\<lambda>i. s ! i \<noteq> 0) [0..<length s])"

text \<open>\<open>a[0]\<close> and \<open>a[-1]\<close> on a rank-1 array: IndexError when it is empty.\<close>

definition first_ix :: "int list \<Rightarrow> error + int" where
  "first_ix a = (case a of [] \<Rightarrow> Inl IndexError | x # _ \<Rightarrow> Inr x)"

definition last_ix :: "int list \<Rightarrow> error + int" where
  "last_ix a = (case a of [] \<Rightarrow> Inl IndexError | _ # _ \<Rightarrow> Inr (last a))"

text \<open>
  The first and the last index with a nonzero sum, for rows and for columns:
  \<open>(y_min, y_max, x_min, x_max)\<close>. The source computes it on \<open>img\<close> (lines 45-51, where it
  keeps the differences \<open>eqh\<close>, \<open>eqw\<close>) and on \<open>img_scale\<close> (lines 64-72).
\<close>

definition content_extent :: "u8 ndarray \<Rightarrow> error + (int \<times> int \<times> int \<times> int)" where
  "content_extent img =
     (case first_ix (where_nonzero (row_sum img)) of Inl e \<Rightarrow> Inl e | Inr y_min \<Rightarrow>
      case last_ix (where_nonzero (row_sum img)) of Inl e \<Rightarrow> Inl e | Inr y_max \<Rightarrow>
      case first_ix (where_nonzero (col_sum img)) of Inl e \<Rightarrow> Inl e | Inr x_min \<Rightarrow>
      case last_ix (where_nonzero (col_sum img)) of Inl e \<Rightarrow> Inl e | Inr x_max \<Rightarrow>
      Inr (y_min, y_max, x_min, x_max))"

text \<open>
  Lines 42-58: the extent of the input, the cap on \<open>max_scale\<close>, the draw of the factor and
  the resampling. \<open>float(imh) / float(eqh)\<close> is a division of Python floats: it raises
  ZeroDivisionError when \<open>eqh\<close> is 0. The resampling of line 58 raises ValueError where
  the collaborator has no result.
\<close>

definition scale_step ::
  "'g collab \<Rightarrow> u8 ndarray \<Rightarrow> real \<Rightarrow> real \<Rightarrow> 'g \<Rightarrow> error + (u8 ndarray \<times> 'g)" where
  "scale_step env img min_scale max_scale g =
     (case content_extent img of Inl e \<Rightarrow> Inl e | Inr (y0, y1, x0, x1) \<Rightarrow>
      let eqh = y1 - y0; eqw = x1 - x0 in
      if eqh = 0 \<or> eqw = 0 then Inl ZeroDivisionError
      else
        let max_scale = min (fl64 env (real (shape0 img) / real_of_int eqh))
                          (min (fl64 env (real (shape1 img) / real_of_int eqw)) max_scale);
            (scale_factor, g') = np_uniform env min_scale max_scale g
        in case imresize_factor env img scale_factor of
             None \<Rightarrow> Inl ValueError
           | Some img_scale \<Rightarrow> Inr (img_scale, g'))"

text \<open>Line 74: the test that sends \<open>random_scale\<close> back to the input.\<close>

definition too_big :: "int \<Rightarrow> int \<Rightarrow> int \<Rightarrow> int \<times> int \<times> int \<times> int \<Rightarrow> bool" where
  "too_big imh imw min_pad ext =
     (case ext of (y_min, y_max, x_min, x_max) \<Rightarrow>
        (y_max - y_min) + 2 * min_pad > imh \<or> (x_max - x_min) + 2 * min_pad > imw)"

text \<open>Lines 77-85: the extent widened by \<open>min_pad\<close> and clipped.\<close>

definition clip_extent ::
  "int \<Rightarrow> int \<Rightarrow> int \<Rightarrow> int \<times> int \<times> int \<times> int \<Rightarrow> int \<times> int \<times> int \<times> int" where
  "clip_extent imh imw min_pad ext =
     (case ext of (y_min, y_max, x_min, x_max) \<Rightarrow>
        (max (y_min - min_pad) 0, min (y_max + min_pad) (imh - 1),
         max (x_min - min_pad) 0, min (x_max + min_pad) (imw - 1)))"

text \<open>
  A Python slice \<open>[start:stop]\<close> on an axis of length \<open>n\<close>: a negative bound counts from
  the end, both bounds are brought into \<open>[0, n]\<close>, and the slice holds the indices from
  the start up to but without the stop.
\<close>

definition slice_bounds :: "nat \<Rightarrow> int \<Rightarrow> int \<Rightarrow> nat \<times> nat" where
  "slice_bounds n start stop =
     (let norm = (\<lambda>i. if i < 0 then max (i + int n) 0 else min i (int n));
          s = norm start; e = norm stop
      in (nat s, nat (max s e)))"

text \<open>Line 87: \<open>img_scale[y_min:y_max, x_min:x_max, :]\<close>.\<close>

definition crop :: "'a ndarray \<Rightarrow> int \<times> int \<times> int \<times> int \<Rightarrow> 'a ndarray" where
  "crop a ext =
     (case ext of (y_min, y_max, x_min, x_max) \<Rightarrow>
      let (ys, ye) = slice_bounds (shape0 a) y_min y_max;
          (xs, xe) = slice_bounds (shape1 a) x_min x_max
      in \<lparr>shape0 = ye - ys, shape1 = xe - xs, shape2 = shape2 a,
          elems = map (\<lambda>r. take (xe - xs) (drop xs r)) (take (ye - ys) (drop ys (elems a)))\<rparr>)"

text \<open>
  Lines 90-93: \<open>int((imh - img_scale.shape[0])/2)\<close> and the rest. \<open>int\<close> of a true
  quotient truncates towards zero; under Python 2 the quotient is a floor division. The
  two agree on a deficit that is not negative.
\<close>

definition pad_split :: "int \<Rightarrow> int \<Rightarrow> int \<times> int" where
  "pad_split full part =
     (let d = full - part;
          half = (if 0 \<le> d then d div 2 else - ((- d) div 2))
      in (half, d - half))"

text \<open>Lines 95-97: \<open>np.pad\<close> with constant 0 on the two spatial axes; a negative width
  raises ValueError.\<close>

definition np_pad :: "u8 ndarray \<Rightarrow> int \<times> int \<Rightarrow> int \<times> int \<Rightarrow> error + u8 ndarray" where
  "np_pad a ud lr =
     (case (ud, lr) of ((up, down), (left, right)) \<Rightarrow>
      if up < 0 \<or> down < 0 \<or> left < 0 \<or> right < 0 then Inl ValueError
      else
        let w = nat left + shape1 a + nat right;
            zpx = replicate (shape2 a) (0::u8);
            zrow = replicate w zpx
        in Inr \<lparr>shape0 = nat up + shape0 a + nat down, shape1 = w, shape2 = shape2 a,
                elems = replicate (nat up) zrow
                        @ map (\<lambda>r. replicate (nat left) zpx @ r @ replicate (nat right) zpx) (elems a)
                        @ replicate (nat down) zrow\<rparr>)"

definition random_scale ::
  "'g collab \<Rightarrow> u8 ndarray \<Rightarrow> real \<Rightarrow> real \<Rightarrow> int \<Rightarrow> 'g \<Rightarrow> error + (u8 ndarray \<times> 'g)" where
  "random_scale env img min_scale max_scale min_pad g =
     (let imh = int (shape0 img); imw = int (shape1 img) in
      case scale_step env img min_scale max_scale g of Inl e \<Rightarrow> Inl e | Inr (img_scale, g') \<Rightarrow>
      case content_extent img_scale of Inl e \<Rightarrow> Inl e | Inr ext \<Rightarrow>
      if too_big imh imw min_pad ext then Inr (img, g')
      else
        let img_scale = crop img_scale (clip_extent imh imw min_pad ext) in
        case np_pad img_scale (pad_split imh (int (shape0 img_scale)))
                              (pad_split imw (int (shape1 img_scale))) of
          Inl e \<Rightarrow> Inl e
        | Inr img_scale \<Rightarrow> Inr (img_scale, g'))"

section \<open>\<open>random_hue\<close>\<close>

text \<open>\<open>np.sum(img == v)\<close>: the number of elements (channel values) equal to \<open>v\<close>.\<close>

definition count_eq :: "u8 ndarray \<Rightarrow> u8 \<Rightarrow> nat" where
  "count_eq img v = length (filter (\<lambda>x. x = v) (flat img))"

text \<open>Lines 112-114: \<open>bg_value\<close> is 255.0 unless the zeros are strictly more.\<close>

definition bg_value :: "u8 ndarray \<Rightarrow> real" where
  "bg_value img = (if count_eq img 0 > count_eq img 255 then 0 else 255)"

text \<open>\<open>a[:,:,k] = v\<close>.\<close>

definition set_channel :: "nat \<Rightarrow> 'a \<Rightarrow> 'a ndarray \<Rightarrow> 'a ndarray" where
  "set_channel k v a = a\<lparr>elems := map (map (\<lambda>p. p[k := v])) (elems a)\<rparr>"

text \<open>\<open>a[mask] = v\<close> for a boolean mask of the shape of \<open>a\<close>.\<close>

definition set_where :: "bool ndarray \<Rightarrow> 'a \<Rightarrow> 'a ndarray \<Rightarrow> 'a ndarray" where
  "set_where ind v a =
     a\<lparr>elems := map2 (map2 (map2 (\<lambda>m x. if m then v else x))) (elems ind) (elems a)\<rparr>"

text \<open>
  \<open>img.astype(np.uint8)\<close> on a uint8 array and \<open>np.copy(img)\<close>: a new array with the same
  elements.
\<close>

definition astype_uint8 :: "u8 ndarray \<Rightarrow> u8 ndarray" where
  "astype_uint8 img = img"

definition np_copy :: "'a ndarray \<Rightarrow> 'a ndarray" where
  "np_copy img = img"

definition random_hue :: "'g collab \<Rightarrow> u8 ndarray \<Rightarrow> 'g \<Rightarrow> real ndarray \<times> 'g" where
  "random_hue env img g =
     (let bg = bg_value img;
          bg_pixel_ind = map_elems (\<lambda>x. real (unat x) = bg) img;
          img_rgb = astype_uint8 img;
          img_hsv = rgb2hsv env img_rgb;
          (hue, g1) = np_uniform env 0 1 g;
          (sat, g2) = np_uniform env 0 1 g1;
          (val, g3) = np_uniform env 0 0.7 g2;
          (val, g4) = (if bg = 0 then np_uniform env 0.3 1 g3 else (val, g3));
          img_hsv = set_channel 0 hue img_hsv;
          img_hsv = set_channel 1 sat img_hsv;
          img_hsv = set_channel 2 val img_hsv;
          img_hsv = map_elems (\<lambda>x. if x > 1 then 1 else x) img_hsv;
          img_hsv = map_elems (\<lambda>x. if x < 0 then 0 else x) img_hsv;
          img_rgb = hsv2rgb env img_hsv;
          img_rgb = set_where bg_pixel_ind bg img_rgb
      in (map_elems (\<lambda>x. fl64 env (x * 255)) img_rgb, g4))"

section \<open>\<open>random_rotate\<close>\<close>

fun arr_shape :: "arr \<Rightarrow> nat \<times> nat \<times> nat" where
  "arr_shape (U8 a) = (shape0 a, shape1 a, shape2 a)"
| "arr_shape (F64 a) = (shape0 a, shape1 a, shape2 a)"

fun arr_wf :: "arr \<Rightarrow> bool" where
  "arr_wf (U8 a) = wf a"
| "arr_wf (F64 a) = wf a"

definition random_rotate :: "'g collab \<Rightarrow> arr \<Rightarrow> real \<Rightarrow> 'g \<Rightarrow> u8 ndarray \<times> 'g" where
  "random_rotate env img angle_std g =
     (case arr_shape img of (imh, imw, _) \<Rightarrow>
      let (z, g') = np_randn env g;
          angle = fl64 env (angle_std * z);
          img = ndimage_rotate env img angle
      in (imresize_size env img imh imw, g'))"

section \<open>\<open>random_transform\<close>\<close>

text \<open>\<open>img_trf[img_trf > 200] = 255\<close> and \<open>img_trf[img_trf < 55] = 0\<close>.\<close>

fun snap_high :: "arr \<Rightarrow> arr" where
  "snap_high (U8 a) = U8 (map_elems (\<lambda>x. if x > 200 then 255 else x) a)"
| "snap_high (F64 a) = F64 (map_elems (\<lambda>x. if x > 200 then 255 else x) a)"

fun snap_low :: "arr \<Rightarrow> arr" where
  "snap_low (U8 a) = U8 (map_elems (\<lambda>x. if x < 55 then 0 else x) a)"
| "snap_low (F64 a) = F64 (map_elems (\<lambda>x. if x < 55 then 0 else x) a)"

text \<open>
  Lines 175-191: the copy and the scale, hue and rotate gates. \<open>random_scale\<close> is called
  without \<open>min_pad\<close>, which is then 0. The threshold \<open>rotate\<close> is written \<open>rotate'\<close>.
\<close>

definition gates ::
  "'g collab \<Rightarrow> u8 ndarray \<Rightarrow> real \<Rightarrow> real \<Rightarrow> real \<Rightarrow> real \<Rightarrow> real \<Rightarrow> real \<Rightarrow> 'g
   \<Rightarrow> error + (arr \<times> 'g)" where
  "gates env img scale min_scale max_scale hue rotate' angle_std g =
     (let img_trf = np_copy img;
          (dice, g) = np_uniform env 0 1 g
      in case (if dice < scale then random_scale env img_trf min_scale max_scale 0 g
               else Inr (img_trf, g)) of
           Inl e \<Rightarrow> Inl e
         | Inr (img_trf, g) \<Rightarrow>
             let (dice, g) = np_uniform env 0 1 g;
                 (img_trf, g) = (if dice < hue
                                 then (case random_hue env img_trf g of (r, g) \<Rightarrow> (F64 r, g))
                                 else (U8 img_trf, g));
                 (dice, g) = np_uniform env 0 1 g;
                 (img_trf, g) = (if dice < rotate'
                                 then (case random_rotate env img_trf angle_std g of
                                         (r, g) \<Rightarrow> (U8 r, g))
                                 else (img_trf, g))
             in Inr (img_trf, g))"

definition random_transform ::
  "'g collab \<Rightarrow> u8 ndarray \<Rightarrow> real \<Rightarrow> real \<Rightarrow> real \<Rightarrow> real \<Rightarrow> real \<Rightarrow> real \<Rightarrow> real \<Rightarrow> real \<Rightarrow> 'g
   \<Rightarrow> error + (arr \<times> 'g)" where
  "random_transform env img original invert scale min_scale max_scale hue rotate' angle_std g =
     (let (dice, g) = np_uniform env 0 1 g in
      if dice < original then Inr (U8 (astype_uint8 img), g)
      else
        case gates env img scale min_scale max_scale hue rotate' angle_std g of
          Inl e \<Rightarrow> Inl e
        | Inr (img_trf, g) \<Rightarrow>
            let (dice, g) = np_uniform env 0 1 g
            in Inr (if dice < invert then snap_high (invert_img env img_trf)
                    else snap_low img_trf, g))"

section \<open>Predicates used in the statements\<close>

text \<open>No element of the array lies strictly between \<open>lo\<close> and \<open>hi\<close>.\<close>

fun no_value_between :: "int \<Rightarrow> int \<Rightarrow> arr \<Rightarrow> bool" where
  "no_value_between lo hi (U8 a) = list_all (\<lambda>x. \<not> (lo < uint x \<and> uint x < hi)) (flat a)"
| "no_value_between lo hi (F64 a) =
     list_all (\<lambda>x. \<not> (real_of_int lo < x \<and> x < real_of_int hi)) (flat a)"

text \<open>
  What the module relies on from its collaborators: resampling by a factor, where it
  returns, returns a well-formed array, resampling to \<open>[h, w]\<close> returns a well-formed array with \<open>h\<close> rows and
  \<open>w\<close> columns, and the colour conversions keep the shape of a well-formed array.
\<close>

definition same_shape :: "'a ndarray \<Rightarrow> 'b ndarray \<Rightarrow> bool" where
  "same_shape a b \<longleftrightarrow> shape0 a = shape0 b \<and> shape1 a = shape1 b \<and> shape2 a = shape2 b"

definition collab_ok :: "'g collab \<Rightarrow> bool" where
  "collab_ok env \<longleftrightarrow>
     (\<forall>a f r. wf a \<and> imresize_factor env a f = Some r \<longrightarrow> wf r) \<and>
     (\<forall>a h w. wf (imresize_size env a h w) \<and> shape0 (imresize_size env a h w) = h
               \<and> shape1 (imresize_size env a h w) = w) \<and>
     (\<forall>a. wf a \<longrightarrow> wf (rgb2hsv env a) \<and> same_shape (rgb2hsv env a) a) \<and>
     (\<forall>a. wf a \<longrightarrow> wf (hsv2rgb env a) \<and> same_shape (hsv2rgb env a) a)"

section \<open>\<open>gray2rgb\<close> and an instance of the collaborators\<close>

text \<open>
  Lines 14-22: a gray image, given by its rows, becomes a canvas with three equal
  channels. The width of an image with no rows is taken as 0.
\<close>

definition gray2rgb :: "'a list list \<Rightarrow> 'a ndarray" where
  "gray2rgb img =
     \<lparr>shape0 = length img, shape1 = (case img of [] \<Rightarrow> 0 | r # _ \<Rightarrow> length r), shape2 = 3,
      elems = map (map (\<lambda>v. [v, v, v])) img\<rparr>"

definition filled :: "nat \<Rightarrow> nat \<Rightarrow> nat \<Rightarrow> 'a \<Rightarrow> 'a ndarray" where
  "filled h w c v =
     \<lparr>shape0 = h, shape1 = w, shape2 = c, elems = replicate h (replicate w (replicate c v))\<rparr>"

text \<open>
  Collaborators on which the model runs. The random source is the list of the deviates
  still to come: a uniform draw scales the next one from [0, 1) into \<open>[lo, hi)\<close>.
  Floating-point rounding is exact, resampling by a factor returns its input unless the
  factor takes a side below one pixel, resampling
  to a size returns a gray canvas of that size, rotation returns its input, the colour
  conversions keep the shape.
\<close>

definition env0 :: "real list collab" where
  "env0 =
     \<lparr>np_uniform = (\<lambda>lo hi g. case g of [] \<Rightarrow> (lo, []) | u # us \<Rightarrow> (lo + (hi - lo) * u, us)),
      np_randn = (\<lambda>g. case g of [] \<Rightarrow> (0, []) | z # zs \<Rightarrow> (z, zs)),
      fl64 = (\<lambda>x. x),
      imresize_factor = (\<lambda>a f. if real (shape0 a) * f < 1 \<or> real (shape1 a) * f < 1 then None
                                else Some a),
      imresize_size = (\<lambda>a h w. filled h w 3 128),
      ndimage_rotate = (\<lambda>a angle. a),
      rgb2hsv = map_elems (\<lambda>x. real (unat x) / 255),
      hsv2rgb = (\<lambda>a. a)\<rparr>"

text \<open>The same, with a resampling that returns a fixed canvas whatever the factor.\<close>

definition env_to :: "u8 ndarray \<Rightarrow> real list collab" where
  "env_to big = env0\<lparr>imresize_factor := (\<lambda>a f. Some big)\<rparr>"

text \<open>A 4 by 4 canvas with a 2 by 2 block, a 4 by 4 canvas with one lit row, a lit 6 by 6
  canvas, and a light pixel next to a dark one.\<close>

definition img_block :: "u8 ndarray" where
  "img_block = gray2rgb [[0, 0, 0, 0], [0, 9, 9, 0], [0, 9, 9, 0], [0, 0, 0, 0]]"

definition img_row :: "u8 ndarray" where
  "img_row = gray2rgb [[0, 0, 0, 0], [0, 9, 9, 0], [0, 0, 0, 0], [0, 0, 0, 0]]"

definition img_big :: "u8 ndarray" where
  "img_big = gray2rgb (replicate 6 (replicate 6 9))"

definition img_light :: "u8 ndarray" where
  "img_light = gray2rgb [[255, 7]]"

section \<open>Properties of \<open>invert_img\<close>\<close>

lemma map_elems_comp: "map_elems f (map_elems g a) = map_elems (f \<circ> g) a"
  by (simp add: map_elems_def)

lemma map_elems_ident: "map_elems (\<lambda>x. x) a = a"
proof -
  have "map (map (map (\<lambda>x. x))) (elems a) = elems a"
    by (simp add: list.map_ident)
  then show ?thesis by (simp add: map_elems_def)
qed

lemma shape_map_elems:
  "shape0 (map_elems f a) = shape0 a" "shape1 (map_elems f a) = shape1 a"
  "shape2 (map_elems f a) = shape2 a"
  by (simp_all add: map_elems_def)

lemma wf_map_elems: "wf (map_elems f a) = wf a"
  by (simp add: wf_def map_elems_def list_all_iff)

lemma flat_map_elems: "flat (map_elems f a) = map f (flat a)"
  by (simp add: flat_def map_elems_def map_concat)

lemma u8_le_255: "x \<le> (255::u8)"
proof -
  have "unat x < 256" using unsigned_less [of x, where ?'a = nat] by simp
  then show ?thesis by (simp add: word_le_nat_alt)
qed

lemma unat_255_minus: "unat (255 - x) = 255 - unat x" for x :: u8
  using u8_le_255 [of x] by (simp add: unat_sub)

text \<open>
  C9: on a uint8 canvas \<open>invert_img\<close> is total and returns a uint8 array of the same shape
  whose elements, read as numbers, are 255 minus the elements of the input (no
  wrap-around); applying it twice gives the canvas back exactly.
\<close>

theorem invert_img_involution:
  "\<exists>out. invert_img env (U8 img) = U8 out
       \<and> shape0 out = shape0 img \<and> shape1 out = shape1 img \<and> shape2 out = shape2 img
       \<and> wf out = wf img
       \<and> map unat (flat out) = map (\<lambda>x. 255 - unat x) (flat img)
       \<and> invert_img env (invert_img env (U8 img)) = U8 img"
proof -
  have inv: "(\<lambda>x::u8. 255 - x) \<circ> (\<lambda>x. 255 - x) = (\<lambda>x. x)"
    by (rule ext) simp
  show ?thesis
    by (simp add: shape_map_elems wf_map_elems flat_map_elems map_elems_comp inv
        map_elems_ident unat_255_minus)
qed

section \<open>The content extent\<close>

lemma sorted_where_nonzero: "sorted (where_nonzero s)"
  unfolding where_nonzero_def
  by (rule sorted_filter) (simp add: sorted_map)

lemma where_nonzero_range: "x \<in> set (where_nonzero s) \<Longrightarrow> 0 \<le> x \<and> x < int (length s)"
  by (auto simp: where_nonzero_def)

lemma sorted_hd_le_last: "sorted xs \<Longrightarrow> xs \<noteq> [] \<Longrightarrow> hd xs \<le> last (xs :: int list)"
  by (cases xs) (auto)

lemma first_ix_Inr: "first_ix a = Inr x \<longleftrightarrow> a \<noteq> [] \<and> x = hd a"
  by (cases a) (auto simp: first_ix_def)

lemma last_ix_Inr: "last_ix a = Inr x \<longleftrightarrow> a \<noteq> [] \<and> x = last a"
  by (cases a) (auto simp: last_ix_def)

lemma first_ix_Inl: "first_ix a = Inl e \<longleftrightarrow> a = [] \<and> e = IndexError"
  by (cases a) (auto simp: first_ix_def)

lemma last_ix_Inl: "last_ix a = Inl e \<longleftrightarrow> a = [] \<and> e = IndexError"
  by (cases a) (auto simp: last_ix_def)

lemma content_extent_Inr:
  "content_extent a = Inr (y0, y1, x0, x1) \<longleftrightarrow>
     where_nonzero (row_sum a) \<noteq> [] \<and> where_nonzero (col_sum a) \<noteq> [] \<and>
     y0 = hd (where_nonzero (row_sum a)) \<and> y1 = last (where_nonzero (row_sum a)) \<and>
     x0 = hd (where_nonzero (col_sum a)) \<and> x1 = last (where_nonzero (col_sum a))"
  by (auto simp: content_extent_def first_ix_Inr last_ix_Inr first_ix_Inl last_ix_Inl
      split: sum.splits)

lemma content_extent_Inl:
  "content_extent a = Inl e \<longleftrightarrow>
     (where_nonzero (row_sum a) = [] \<or> where_nonzero (col_sum a) = []) \<and> e = IndexError"
  by (auto simp: content_extent_def first_ix_Inl last_ix_Inl first_ix_Inr last_ix_Inr split: sum.splits)

lemma length_row_sum: "length (row_sum a) = shape0 a"
  by (simp add: row_sum_def)

lemma length_col_sum: "length (col_sum a) = shape1 a"
  by (simp add: col_sum_def)

lemma content_extent_bounds:
  assumes "content_extent a = Inr (y0, y1, x0, x1)"
  shows "0 \<le> y0 \<and> y0 \<le> y1 \<and> y1 < int (shape0 a) \<and> 0 \<le> x0 \<and> x0 \<le> x1 \<and> x1 < int (shape1 a)"
proof -
  let ?r = "where_nonzero (row_sum a)" and ?c = "where_nonzero (col_sum a)"
  from assms have ne: "?r \<noteq> []" "?c \<noteq> []"
    and eq: "y0 = hd ?r" "y1 = last ?r" "x0 = hd ?c" "x1 = last ?c"
    by (simp_all add: content_extent_Inr)
  have "y0 \<in> set ?r" "y1 \<in> set ?r" "x0 \<in> set ?c" "x1 \<in> set ?c"
    using ne eq by simp_all
  then have "0 \<le> y0" "y1 < int (shape0 a)" "0 \<le> x0" "x1 < int (shape1 a)"
    using where_nonzero_range [of _ "row_sum a"] where_nonzero_range [of _ "col_sum a"]
    by (auto simp: length_row_sum length_col_sum)
  moreover have "y0 \<le> y1" "x0 \<le> x1"
    using ne eq sorted_hd_le_last sorted_where_nonzero by simp_all
  ultimately show ?thesis by simp
qed

section \<open>\<open>random_scale\<close>: failures and the fallback\<close>

lemma scale_step_ZeroDivisionError:
  "scale_step env img min_scale max_scale g = Inl ZeroDivisionError \<longleftrightarrow>
     (\<exists>y0 y1 x0 x1. content_extent img = Inr (y0, y1, x0, x1) \<and> (y1 = y0 \<or> x1 = x0))"
proof (cases "content_extent img")
  case (Inl e')
  then have "e' = IndexError" by (simp add: content_extent_Inl)
  with Inl show ?thesis by (auto simp: scale_step_def)
next
  case (Inr ext)
  obtain y0 y1 x0 x1 where "ext = (y0, y1, x0, x1)" by (cases ext) auto
  with Inr show ?thesis
    by (auto simp: scale_step_def Let_def split: prod.splits option.splits)
qed

lemma scale_step_Inl_cases:
  assumes "scale_step env img min_scale max_scale g = Inl e"
  shows "(content_extent img = Inl IndexError \<and> e = IndexError) \<or>
     (\<exists>y0 y1 x0 x1. content_extent img = Inr (y0, y1, x0, x1) \<and> (y1 = y0 \<or> x1 = x0)
        \<and> e = ZeroDivisionError) \<or>
     (\<exists>y0 y1 x0 x1 f. content_extent img = Inr (y0, y1, x0, x1) \<and> y1 \<noteq> y0 \<and> x1 \<noteq> x0
        \<and> imresize_factor env img f = None \<and> e = ValueError)"
proof (cases "content_extent img")
  case (Inl e')
  then have "e' = IndexError" by (simp add: content_extent_Inl)
  with Inl assms show ?thesis by (auto simp: scale_step_def)
next
  case (Inr ext)
  obtain y0 y1 x0 x1 where "ext = (y0, y1, x0, x1)" by (cases ext) auto
  with Inr assms show ?thesis
    by (auto simp: scale_step_def Let_def split: prod.splits option.splits if_splits)
qed

lemma scale_step_returns:
  assumes "content_extent img = Inr (y0, y1, x0, x1)" "y1 \<noteq> y0" "x1 \<noteq> x0"
    and "\<forall>f. imresize_factor env img f \<noteq> None"
  shows "\<exists>img_scale g'. scale_step env img min_scale max_scale g = Inr (img_scale, g')"
proof -
  let ?m = "min (fl64 env (real (shape0 img) / real_of_int (y1 - y0)))
              (min (fl64 env (real (shape1 img) / real_of_int (x1 - x0))) max_scale)"
  obtain f g' where u: "np_uniform env min_scale ?m g = (f, g')"
    by (cases "np_uniform env min_scale ?m g")
  from assms(4) obtain r where "imresize_factor env img f = Some r" by auto
  with assms(1-3) u have "scale_step env img min_scale max_scale g = Inr (r, g')"
    by (simp add: scale_step_def Let_def)
  then show ?thesis by blast
qed

lemma scale_step_Inr:
  "scale_step env img min_scale max_scale g = Inr r \<Longrightarrow>
     \<exists>y0 y1 x0 x1. content_extent img = Inr (y0, y1, x0, x1) \<and> y1 \<noteq> y0 \<and> x1 \<noteq> x0"
  by (auto simp: scale_step_def Let_def split: sum.splits prod.splits if_splits option.splits)

lemma np_pad_Inl: "np_pad a ud lr = Inl e \<Longrightarrow> e = ValueError"
  by (auto simp: np_pad_def Let_def split: prod.splits if_splits)

lemma random_scale_Inl_cases:
  "random_scale env img min_scale max_scale min_pad g = Inl ZeroDivisionError \<longleftrightarrow>
   scale_step env img min_scale max_scale g = Inl ZeroDivisionError"
  by (auto simp: random_scale_def Let_def content_extent_Inl dest: np_pad_Inl
      split: sum.splits prod.splits if_splits)

lemma random_scale_Inr_scale_step:
  "random_scale env img min_scale max_scale min_pad g = Inr r \<Longrightarrow>
   \<exists>r'. scale_step env img min_scale max_scale g = Inr r'"
  by (auto simp: random_scale_def Let_def split: sum.splits prod.splits if_splits)

text \<open>
  C10: \<open>random_scale\<close> raises ZeroDivisionError exactly when the input has content (a
  nonzero sum in some row and in some column) whose first and last row coincide or whose
  first and last column coincide; whenever it returns, the content spans at least two rows
  and two columns.
\<close>

theorem random_scale_zero_division:
  "(random_scale env img min_scale max_scale min_pad g = Inl ZeroDivisionError \<longleftrightarrow>
      (\<exists>y_min y_max x_min x_max.
         content_extent img = Inr (y_min, y_max, x_min, x_max) \<and>
         (y_max = y_min \<or> x_max = x_min)))
   \<and> (\<forall>r. random_scale env img min_scale max_scale min_pad g = Inr r \<longrightarrow>
        (\<exists>y_min y_max x_min x_max.
           content_extent img = Inr (y_min, y_max, x_min, x_max) \<and>
           y_min < y_max \<and> x_min < x_max))"
proof (intro conjI allI impI)
  show "random_scale env img min_scale max_scale min_pad g = Inl ZeroDivisionError \<longleftrightarrow>
      (\<exists>y_min y_max x_min x_max.
         content_extent img = Inr (y_min, y_max, x_min, x_max) \<and>
         (y_max = y_min \<or> x_max = x_min))"
    by (simp add: random_scale_Inl_cases scale_step_ZeroDivisionError)
next
  fix r
  assume rs: "random_scale env img min_scale max_scale min_pad g = Inr r"
  from random_scale_Inr_scale_step [OF rs]
  obtain r' where ss: "scale_step env img min_scale max_scale g = Inr r'" by blast
  from scale_step_Inr [OF ss] obtain y0 y1 x0 x1 where
    ext: "content_extent img = Inr (y0, y1, x0, x1)" and ne: "y1 \<noteq> y0" "x1 \<noteq> x0"
    by blast
  from content_extent_bounds [OF ext] ne have "y0 < y1" "x0 < x1" by simp_all
  with ext show "\<exists>y_min y_max x_min x_max.
           content_extent img = Inr (y_min, y_max, x_min, x_max) \<and>
           y_min < y_max \<and> x_min < x_max"
    by blast
qed

lemma ce_row: "content_extent img_row = Inr (1, 1, 1, 2)" by code_simp
lemma ce_block: "content_extent img_block = Inr (1, 2, 1, 2)" by code_simp
lemma rs_block: "random_scale env0 img_block 0.7 1.43 0 [0.5] =
   Inr (gray2rgb [[0, 0, 0, 0], [0, 9, 0, 0], [0, 0, 0, 0], [0, 0, 0, 0]], [])" by code_simp

theorem random_scale_zero_division_witness:
  "content_extent img_row = Inr (1, 1, 1, 2)
   \<and> random_scale env0 img_row 0.7 1.43 0 [0.5] = Inl ZeroDivisionError
   \<and> random_scale env0 img_block 0.7 1.43 0 [0.5] =
       Inr (gray2rgb [[0, 0, 0, 0], [0, 9, 0, 0], [0, 0, 0, 0], [0, 0, 0, 0]], [])
   \<and> (\<exists>y_min y_max x_min x_max.
         content_extent img_block = Inr (y_min, y_max, x_min, x_max) \<and>
         y_min < y_max \<and> x_min < x_max)"
proof -
  have a: "random_scale env0 img_row 0.7 1.43 0 [0.5] = Inl ZeroDivisionError"
    using random_scale_zero_division [of env0 img_row "0.7" "1.43" 0 "[0.5]"] ce_row by simp
  have b: "\<exists>y_min y_max x_min x_max.
         content_extent img_block = Inr (y_min, y_max, x_min, x_max) \<and>
         y_min < y_max \<and> x_min < x_max"
    using random_scale_zero_division [of env0 img_block "0.7" "1.43" 0 "[0.5]"] rs_block by simp
  show ?thesis using a b ce_row rs_block by simp
qed

text \<open>
  C4: when the extent of the resampled canvas satisfies
  \<open>(y_max - y_min) + 2 * min_pad > imh\<close> or \<open>(x_max - x_min) + 2 * min_pad > imw\<close>,
  \<open>random_scale\<close> returns the input canvas itself, with no crop and no pad.
\<close>

theorem random_scale_fallback:
  assumes "scale_step env img min_scale max_scale g = Inr (img_scale, g')"
    and "content_extent img_scale = Inr (y_min, y_max, x_min, x_max)"
    and "(y_max - y_min) + 2 * min_pad > int (shape0 img)
         \<or> (x_max - x_min) + 2 * min_pad > int (shape1 img)"
  shows "random_scale env img min_scale max_scale min_pad g = Inr (img, g')"
  using assms by (simp add: random_scale_def too_big_def)

lemma ss_big: "scale_step (env_to img_big) img_block 0.7 1.43 [0.5] = Inr (img_big, [])"
  by code_simp
lemma ce_big: "content_extent img_big = Inr (0, 5, 0, 5)" by code_simp

theorem random_scale_fallback_witness:
  "scale_step (env_to img_big) img_block 0.7 1.43 [0.5] = Inr (img_big, [])
   \<and> content_extent img_big = Inr (0, 5, 0, 5)
   \<and> (5 - 0) + 2 * 0 > int (shape0 img_block)
   \<and> random_scale (env_to img_big) img_block 0.7 1.43 0 [0.5] = Inr (img_block, [])"
proof -
  have s: "(5 - 0) + 2 * 0 > int (shape0 img_block)" by (simp add: img_block_def gray2rgb_def)
  then have "(5 - 0) + 2 * 0 > int (shape0 img_block) \<or> (5 - 0) + 2 * 0 > int (shape1 img_block)"
    by simp
  from random_scale_fallback [OF ss_big ce_big this] s ss_big ce_big
  show ?thesis by simp
qed

section \<open>Cropping and padding\<close>

lemma slice_bounds_le: "slice_bounds n a b = (s, e) \<Longrightarrow> s \<le> e \<and> e \<le> n"
  by (auto simp: slice_bounds_def Let_def min_def max_def split: if_splits)

lemma slice_bounds_len:
  "slice_bounds n a b = (s, e) \<Longrightarrow> 0 \<le> a \<Longrightarrow> 0 \<le> b \<Longrightarrow> int (e - s) \<le> b"
  by (auto simp: slice_bounds_def Let_def min_def max_def split: if_splits)

lemma shape_crop:
  "shape0 (crop a (y0, y1, x0, x1)) = snd (slice_bounds (shape0 a) y0 y1) - fst (slice_bounds (shape0 a) y0 y1)"
  "shape1 (crop a (y0, y1, x0, x1)) = snd (slice_bounds (shape1 a) x0 x1) - fst (slice_bounds (shape1 a) x0 x1)"
  "shape2 (crop a (y0, y1, x0, x1)) = shape2 a"
  by (simp_all add: crop_def Let_def split: prod.splits)

lemma crop_shape_bound:
  assumes "0 \<le> y0" "0 \<le> y1" "0 \<le> x0" "0 \<le> x1"
  shows "int (shape0 (crop a (y0, y1, x0, x1))) \<le> y1"
    and "int (shape1 (crop a (y0, y1, x0, x1))) \<le> x1"
proof -
  obtain s e where se: "slice_bounds (shape0 a) y0 y1 = (s, e)" by (cases "slice_bounds (shape0 a) y0 y1")
  obtain s' e' where se': "slice_bounds (shape1 a) x0 x1 = (s', e')" by (cases "slice_bounds (shape1 a) x0 x1")
  show "int (shape0 (crop a (y0, y1, x0, x1))) \<le> y1"
    using slice_bounds_len [OF se] assms by (simp add: shape_crop se)
  show "int (shape1 (crop a (y0, y1, x0, x1))) \<le> x1"
    using slice_bounds_len [OF se'] assms by (simp add: shape_crop se')
qed

lemma wf_crop:
  assumes "wf a"
  shows "wf (crop a ext)"
proof -
  obtain y0 y1 x0 x1 where ext: "ext = (y0, y1, x0, x1)" by (cases ext) auto
  obtain s e where se: "slice_bounds (shape0 a) y0 y1 = (s, e)" by (cases "slice_bounds (shape0 a) y0 y1")
  obtain s' e' where se': "slice_bounds (shape1 a) x0 x1 = (s', e')" by (cases "slice_bounds (shape1 a) x0 x1")
  have b: "s \<le> e" "e \<le> shape0 a" "s' \<le> e'" "e' \<le> shape1 a"
    using slice_bounds_le [OF se] slice_bounds_le [OF se'] by simp_all
  have rows: "\<And>r. r \<in> set (elems a) \<Longrightarrow> length r = shape1 a \<and> (\<forall>p \<in> set r. length p = shape2 a)"
    using assms by (auto simp: wf_def list_all_iff)
  have len: "length (elems a) = shape0 a" using assms by (simp add: wf_def)
  have "length (take (e - s) (drop s (elems a))) = e - s"
    using b len by simp
  moreover have "\<And>r. r \<in> set (take (e - s) (drop s (elems a))) \<Longrightarrow> length r = shape1 a"
    using rows by (meson in_set_dropD in_set_takeD)
  moreover have "\<And>r p. r \<in> set (take (e - s) (drop s (elems a)))
      \<Longrightarrow> p \<in> set (take (e' - s') (drop s' r)) \<Longrightarrow> length p = shape2 a"
    using rows by (meson in_set_dropD in_set_takeD)
  ultimately show ?thesis
    using b by (auto simp: wf_def crop_def ext se se' list_all_iff)
qed

lemma pad_split_nonneg:
  "part \<le> full \<Longrightarrow> pad_split full part = ((full - part) div 2, (full - part) - (full - part) div 2)"
  by (simp add: pad_split_def Let_def)

lemma pad_split_sum: "pad_split full part = (b, a) \<Longrightarrow> b + a = full - part"
  by (auto simp: pad_split_def Let_def)

lemma pad_split_neg:
  "full < part \<Longrightarrow> pad_split full part = (b, a) \<Longrightarrow> b < 0 \<or> a < 0"
  using pad_split_sum [of full part b a] by linarith

lemma np_pad_Inr:
  "np_pad a (up, down) (left, right) = Inr out \<longleftrightarrow>
     0 \<le> up \<and> 0 \<le> down \<and> 0 \<le> left \<and> 0 \<le> right \<and>
     out = \<lparr>shape0 = nat up + shape0 a + nat down, shape1 = nat left + shape1 a + nat right,
            shape2 = shape2 a,
            elems = replicate (nat up) (replicate (nat left + shape1 a + nat right) (replicate (shape2 a) 0))
                    @ map (\<lambda>r. replicate (nat left) (replicate (shape2 a) 0) @ r
                                 @ replicate (nat right) (replicate (shape2 a) 0)) (elems a)
                    @ replicate (nat down) (replicate (nat left + shape1 a + nat right) (replicate (shape2 a) 0))\<rparr>"
  by (auto simp: np_pad_def Let_def)

lemma wf_np_pad:
  assumes "wf a" "np_pad a ud lr = Inr out"
  shows "wf out"
proof -
  obtain up down left right where "ud = (up, down)" "lr = (left, right)"
    by (cases ud, cases lr) auto
  with assms(2) have out: "0 \<le> up" "0 \<le> down" "0 \<le> left" "0 \<le> right"
     "shape0 out = nat up + shape0 a + nat down" "shape1 out = nat left + shape1 a + nat right"
     "shape2 out = shape2 a"
     "elems out = replicate (nat up) (replicate (nat left + shape1 a + nat right) (replicate (shape2 a) 0))
                    @ map (\<lambda>r. replicate (nat left) (replicate (shape2 a) 0) @ r
                                 @ replicate (nat right) (replicate (shape2 a) 0)) (elems a)
                    @ replicate (nat down) (replicate (nat left + shape1 a + nat right) (replicate (shape2 a) 0))"
    by (simp_all add: np_pad_Inr)
  show ?thesis using assms(1) out(5-8)
    by (auto simp: wf_def list_all_iff)
qed

lemma pad_row_nth:
  "j < l + length r + rt \<Longrightarrow>
   (replicate l z @ r @ replicate rt z) ! j = (if l \<le> j \<and> j < l + length r then r ! (j - l) else z)"
  by (auto simp: nth_append)

lemma np_pad_nth:
  assumes wf: "wf a" and pad: "np_pad a (up, down) (left, right) = Inr out"
    and i: "i < shape0 out" and j: "j < shape1 out"
  shows "elems out ! i ! j =
     (if nat up \<le> i \<and> i < nat up + shape0 a \<and> nat left \<le> j \<and> j < nat left + shape1 a
      then elems a ! (i - nat up) ! (j - nat left) else replicate (shape2 a) 0)"
proof -
  let ?z = "replicate (shape2 a) (0::u8)"
  let ?w = "nat left + shape1 a + nat right"
  let ?f = "\<lambda>r. replicate (nat left) ?z @ r @ replicate (nat right) ?z"
  from pad have sh: "shape0 out = nat up + shape0 a + nat down" "shape1 out = ?w"
    and el: "elems out = replicate (nat up) (replicate ?w ?z) @ map ?f (elems a)
                          @ replicate (nat down) (replicate ?w ?z)"
    by (simp_all add: np_pad_Inr)
  have len: "length (elems a) = shape0 a"
    and rows: "\<And>k. k < shape0 a \<Longrightarrow> length (elems a ! k) = shape1 a"
    using wf by (auto simp: wf_def list_all_iff)
  consider "i < nat up" | "nat up \<le> i" "i < nat up + shape0 a" | "nat up + shape0 a \<le> i"
    by linarith
  then show ?thesis
  proof cases
    case 1
    then show ?thesis using j sh by (simp add: el nth_append)
  next
    case 2
    then have k: "i - nat up < shape0 a" by linarith
    have "elems out ! i = ?f (elems a ! (i - nat up))"
      using 2 k len by (simp add: el nth_append)
    moreover have "length (elems a ! (i - nat up)) = shape1 a"
      using k rows by simp
    ultimately have "elems out ! i ! j =
        (if nat left \<le> j \<and> j < nat left + shape1 a
         then elems a ! (i - nat up) ! (j - nat left) else ?z)"
      using j sh pad_row_nth [of j "nat left" "elems a ! (i - nat up)" "nat right" ?z] by simp
    then show ?thesis using 2 by simp
  next
    case 3
    then have k: "\<not> i - nat up < shape0 a" "\<not> i < nat up"
      "i - (nat up + shape0 a) < nat down"
      using i sh by linarith+
    have "elems out ! i = replicate ?w ?z"
      using k len by (simp add: el nth_append)
    then show ?thesis using 3 j sh by simp
  qed
qed

lemma random_scale_non_fallback:
  assumes ss: "scale_step env img min_scale max_scale g = Inr (img_scale, g')"
    and ce: "content_extent img_scale = Inr ext"
    and nb: "\<not> too_big (int (shape0 img)) (int (shape1 img)) min_pad ext"
  shows "random_scale env img min_scale max_scale min_pad g =
     (let c = crop img_scale (clip_extent (int (shape0 img)) (int (shape1 img)) min_pad ext) in
      case np_pad c (pad_split (int (shape0 img)) (int (shape0 c)))
                    (pad_split (int (shape1 img)) (int (shape1 c))) of
        Inl e \<Rightarrow> Inl e | Inr out \<Rightarrow> Inr (out, g'))"
  using assms by (simp add: random_scale_def Let_def)

lemma clip_crop_bound:
  assumes ss: "scale_step env img min_scale max_scale g = Inr (img_scale, g')"
    and ce: "content_extent img_scale = Inr ext"
    and mp: "0 \<le> min_pad"
  shows "int (shape0 (crop img_scale (clip_extent (int (shape0 img)) (int (shape1 img)) min_pad ext)))
           < int (shape0 img)"
    and "int (shape1 (crop img_scale (clip_extent (int (shape0 img)) (int (shape1 img)) min_pad ext)))
           < int (shape1 img)"
proof -
  obtain y0 y1 x0 x1 where ext: "ext = (y0, y1, x0, x1)" by (cases ext) auto
  from scale_step_Inr [OF ss] obtain a b c d where "content_extent img = Inr (a, b, c, d)"
    by blast
  from content_extent_bounds [OF this] have pos: "0 < int (shape0 img)" "0 < int (shape1 img)"
    by simp_all
  from content_extent_bounds [OF ce [unfolded ext]] have e: "0 \<le> y1" "0 \<le> x1" by simp_all
  let ?cl = "clip_extent (int (shape0 img)) (int (shape1 img)) min_pad ext"
  have cl: "?cl = (max (y0 - min_pad) 0, min (y1 + min_pad) (int (shape0 img) - 1),
                   max (x0 - min_pad) 0, min (x1 + min_pad) (int (shape1 img) - 1))"
    by (simp add: clip_extent_def ext)
  have nonneg: "0 \<le> max (y0 - min_pad) 0" "0 \<le> min (y1 + min_pad) (int (shape0 img) - 1)"
     "0 \<le> max (x0 - min_pad) 0" "0 \<le> min (x1 + min_pad) (int (shape1 img) - 1)"
    using pos e mp by simp_all
  from crop_shape_bound [OF nonneg, of img_scale]
  show "int (shape0 (crop img_scale ?cl)) < int (shape0 img)"
    and "int (shape1 (crop img_scale ?cl)) < int (shape1 img)"
    unfolding cl by linarith+
qed

section \<open>\<open>random_scale\<close>: the padding\<close>

lemma half_split: "0 \<le> (d::int) \<Longrightarrow>
  0 \<le> d div 2 \<and> d div 2 \<le> d - d div 2 \<and> d - d div 2 \<le> d div 2 + 1
  \<and> (odd d \<longrightarrow> d - d div 2 = d div 2 + 1) \<and> (even d \<longrightarrow> d - d div 2 = d div 2)"
  by presburger

text \<open>
  C7: on a run of \<open>random_scale\<close> that passes the test of line 74, with \<open>c\<close> the crop and
  \<open>dh\<close>, \<open>dw\<close> the deficits of the two axes: when \<open>min_pad\<close> is not negative the run
  returns; whenever it returns, the deficits are not negative, the pads are
  \<open>(d div 2, d - d div 2)\<close>, so \<open>before \<le> after \<le> before + 1\<close> with the extra pixel after the
  content when the deficit is odd, and the result has the size of the input, holds the crop
  at offset \<open>(dh div 2, dw div 2)\<close> and zero pixels everywhere else.
\<close>

theorem random_scale_padding:
  assumes ss: "scale_step env img min_scale max_scale g = Inr (img_scale, g')"
    and wfs: "wf img_scale"
    and ce: "content_extent img_scale = Inr ext"
    and nb: "\<not> too_big (int (shape0 img)) (int (shape1 img)) min_pad ext"
    and c: "c = crop img_scale (clip_extent (int (shape0 img)) (int (shape1 img)) min_pad ext)"
    and dh: "dh = int (shape0 img) - int (shape0 c)"
    and dw: "dw = int (shape1 img) - int (shape1 c)"
  shows "(0 \<le> min_pad \<longrightarrow>
           (\<exists>out. random_scale env img min_scale max_scale min_pad g = Inr (out, g')))
       \<and> (\<forall>out g''. random_scale env img min_scale max_scale min_pad g = Inr (out, g'') \<longrightarrow>
            g'' = g' \<and> 0 \<le> dh \<and> 0 \<le> dw
          \<and> pad_split (int (shape0 img)) (int (shape0 c)) = (dh div 2, dh - dh div 2)
          \<and> pad_split (int (shape1 img)) (int (shape1 c)) = (dw div 2, dw - dw div 2)
          \<and> dh div 2 \<le> dh - dh div 2 \<and> dh - dh div 2 \<le> dh div 2 + 1
          \<and> dw div 2 \<le> dw - dw div 2 \<and> dw - dw div 2 \<le> dw div 2 + 1
          \<and> (odd dh \<longrightarrow> dh - dh div 2 = dh div 2 + 1)
          \<and> (odd dw \<longrightarrow> dw - dw div 2 = dw div 2 + 1)
          \<and> shape0 out = shape0 img \<and> shape1 out = shape1 img
          \<and> (\<forall>i < shape0 img. \<forall>j < shape1 img.
                elems out ! i ! j =
                  (if nat (dh div 2) \<le> i \<and> i < nat (dh div 2) + shape0 c
                      \<and> nat (dw div 2) \<le> j \<and> j < nat (dw div 2) + shape1 c
                   then elems c ! (i - nat (dh div 2)) ! (j - nat (dw div 2))
                   else replicate (shape2 c) 0)))"
proof (intro conjI allI impI)
  let ?H = "int (shape0 img)" and ?W = "int (shape1 img)"
  have rs: "random_scale env img min_scale max_scale min_pad g =
     (case np_pad c (pad_split ?H (int (shape0 c))) (pad_split ?W (int (shape1 c))) of
        Inl e \<Rightarrow> Inl e | Inr out \<Rightarrow> Inr (out, g'))"
    using random_scale_non_fallback [OF ss ce nb] by (simp add: Let_def c)
  have wfc: "wf c" using wfs by (simp add: c wf_crop)
  {
    assume mp: "0 \<le> min_pad"
    from clip_crop_bound [OF ss ce mp] have "0 \<le> dh" "0 \<le> dw"
      by (simp_all add: c dh dw)
    then have "pad_split ?H (int (shape0 c)) = (dh div 2, dh - dh div 2)"
      "pad_split ?W (int (shape1 c)) = (dw div 2, dw - dw div 2)"
      "0 \<le> dh div 2" "0 \<le> dh - dh div 2" "0 \<le> dw div 2" "0 \<le> dw - dw div 2"
      using half_split [of dh] half_split [of dw] by (simp_all add: dh dw pad_split_nonneg)
    then show "\<exists>out. random_scale env img min_scale max_scale min_pad g = Inr (out, g')"
      by (simp add: rs np_pad_def Let_def)
  }
  fix out g''
  assume ok: "random_scale env img min_scale max_scale min_pad g = Inr (out, g'')"
  obtain up down where ud: "pad_split ?H (int (shape0 c)) = (up, down)"
    by (cases "pad_split ?H (int (shape0 c))")
  obtain left right where lr: "pad_split ?W (int (shape1 c)) = (left, right)"
    by (cases "pad_split ?W (int (shape1 c))")
  from ok have pad: "np_pad c (up, down) (left, right) = Inr out" and g: "g'' = g'"
    by (auto simp: rs ud lr split: sum.splits)
  then have nn: "0 \<le> up" "0 \<le> down" "0 \<le> left" "0 \<le> right"
    by (simp_all add: np_pad_Inr)
  have "\<not> ?H < int (shape0 c)" using pad_split_neg [OF _ ud] nn by linarith
  then have dh0: "0 \<le> dh" by (simp add: dh)
  have "\<not> ?W < int (shape1 c)" using pad_split_neg [OF _ lr] nn by linarith
  then have dw0: "0 \<le> dw" by (simp add: dw)
  have ps: "pad_split ?H (int (shape0 c)) = (dh div 2, dh - dh div 2)"
    "pad_split ?W (int (shape1 c)) = (dw div 2, dw - dw div 2)"
    using dh0 dw0 by (simp_all add: dh dw pad_split_nonneg)
  then have ud': "up = dh div 2" "down = dh - dh div 2" "left = dw div 2" "right = dw - dw div 2"
    using ud lr by simp_all
  have sh0: "shape0 out = nat up + shape0 c + nat down"
    and sh1: "shape1 out = nat left + shape1 c + nat right"
    using pad by (simp_all add: np_pad_Inr)
  have s0: "shape0 out = shape0 img" using sh0 nn ud' dh by linarith
  have s1: "shape1 out = shape1 img" using sh1 nn ud' dw by linarith
  show "g'' = g'" by (rule g)
  show "0 \<le> dh" by (rule dh0)
  show "0 \<le> dw" by (rule dw0)
  show "pad_split ?H (int (shape0 c)) = (dh div 2, dh - dh div 2)" by (rule ps)
  show "pad_split ?W (int (shape1 c)) = (dw div 2, dw - dw div 2)" by (rule ps)
  show "dh div 2 \<le> dh - dh div 2" using half_split [OF dh0] by simp
  show "dh - dh div 2 \<le> dh div 2 + 1" using half_split [OF dh0] by simp
  show "dw div 2 \<le> dw - dw div 2" using half_split [OF dw0] by simp
  show "dw - dw div 2 \<le> dw div 2 + 1" using half_split [OF dw0] by simp
  show "dh - dh div 2 = dh div 2 + 1" if "odd dh" using half_split [OF dh0] that by simp
  show "dw - dw div 2 = dw div 2 + 1" if "odd dw" using half_split [OF dw0] that by simp
  show "shape0 out = shape0 img" by (rule s0)
  show "shape1 out = shape1 img" by (rule s1)
  fix i j
  assume "i < shape0 img" "j < shape1 img"
  then have "i < shape0 out" "j < shape1 out" by (simp_all add: s0 s1)
  from np_pad_nth [OF wfc pad this]
  show "elems out ! i ! j =
          (if nat (dh div 2) \<le> i \<and> i < nat (dh div 2) + shape0 c
              \<and> nat (dw div 2) \<le> j \<and> j < nat (dw div 2) + shape1 c
           then elems c ! (i - nat (dh div 2)) ! (j - nat (dw div 2))
           else replicate (shape2 c) 0)"
    by (simp only: ud')
qed

lemma ss_block: "scale_step env0 img_block 0.7 1.43 [0.5] = Inr (img_block, [])"
  by code_simp
lemma wf_block: "wf img_block" by code_simp
lemma shape_block: "shape0 img_block = 4" "shape1 img_block = 4" by code_simp+
lemma nb_block: "\<not> too_big 4 4 0 (1, 2, 1, 2)" by code_simp
lemma crop_block: "crop img_block (clip_extent 4 4 0 (1, 2, 1, 2)) = gray2rgb [[9]]"
  by code_simp
lemma shape_crop_block: "shape0 (gray2rgb [[9::u8]]) = 1" "shape1 (gray2rgb [[9::u8]]) = 1"
  by code_simp+

theorem random_scale_padding_witness:
  "scale_step env0 img_block 0.7 1.43 [0.5] = Inr (img_block, [])
   \<and> wf img_block
   \<and> content_extent img_block = Inr (1, 2, 1, 2)
   \<and> \<not> too_big (int (shape0 img_block)) (int (shape1 img_block)) 0 (1, 2, 1, 2)
   \<and> crop img_block (clip_extent 4 4 0 (1, 2, 1, 2)) = gray2rgb [[9]]
   \<and> (\<exists>out. random_scale env0 img_block 0.7 1.43 0 [0.5] = Inr (out, []))
   \<and> pad_split 4 1 = (1, 2)"
proof -
  have nb: "\<not> too_big (int (shape0 img_block)) (int (shape1 img_block)) 0 (1, 2, 1, 2)"
    by (simp add: shape_block nb_block)
  note t = random_scale_padding [OF ss_block wf_block ce_block nb refl refl refl]
  from t have ex: "\<exists>out. random_scale env0 img_block 0.7 1.43 0 [0.5] = Inr (out, [])"
    by simp
  from t rs_block have "pad_split (int (shape0 img_block))
      (int (shape0 (crop img_block (clip_extent (int (shape0 img_block)) (int (shape1 img_block)) 0 (1, 2, 1, 2)))))
     = ((int (shape0 img_block) - int (shape0 (crop img_block (clip_extent (int (shape0 img_block)) (int (shape1 img_block)) 0 (1, 2, 1, 2))))) div 2,
        (int (shape0 img_block) - int (shape0 (crop img_block (clip_extent (int (shape0 img_block)) (int (shape1 img_block)) 0 (1, 2, 1, 2)))))
         - (int (shape0 img_block) - int (shape0 (crop img_block (clip_extent (int (shape0 img_block)) (int (shape1 img_block)) 0 (1, 2, 1, 2))))) div 2)"
    by blast
  then have ps: "pad_split 4 1 = (1, 2)"
    by (simp add: shape_block crop_block shape_crop_block)
  show ?thesis using ss_block wf_block ce_block nb crop_block ex ps by simp
qed

section \<open>Runs on concrete canvases\<close>

text \<open>
  C2: the crop of line 87 is the slice \<open>[y_min:y_max, x_min:x_max]\<close>, which leaves out row
  \<open>y_max\<close> and column \<open>x_max\<close> of the clipped extent. On the 4 by 4 canvas with a lit
  2 by 2 block at rows and columns 1 to 2, with \<open>min_pad = 0\<close> and a resampling that returns
  its input, the clipped extent is \<open>(1, 2, 1, 2)\<close>, pixel \<open>(2, 2)\<close> is lit, and the crop
  keeps pixel \<open>(1, 1)\<close> alone: three of the four lit pixels are lost.
\<close>

theorem random_scale_crop_drops_last:
  "scale_step env0 img_block 0.7 1.43 [0.5] = Inr (img_block, [])
   \<and> content_extent img_block = Inr (1, 2, 1, 2)
   \<and> \<not> too_big 4 4 0 (1, 2, 1, 2)
   \<and> clip_extent 4 4 0 (1, 2, 1, 2) = (1, 2, 1, 2)
   \<and> elem_at img_block 2 2 0 = 9
   \<and> crop img_block (1, 2, 1, 2) = gray2rgb [[9]]
   \<and> random_scale env0 img_block 0.7 1.43 0 [0.5] =
        Inr (gray2rgb [[0, 0, 0, 0], [0, 9, 0, 0], [0, 0, 0, 0], [0, 0, 0, 0]], [])"
  by code_simp

text \<open>
  C1: on a canvas with a light background (255 wins the vote) \<open>random_hue\<close> writes
  \<open>bg_value = 255.0\<close> at the background positions and then multiplies the whole array
  by 255: the background element comes out as 65025, not 255.
\<close>

theorem random_hue_light_background:
  "bg_value img_light = 255
   \<and> elem_at img_light 0 0 0 = 255
   \<and> random_hue env0 img_light [0.5, 0.25, 0.5] =
       (\<lparr>shape0 = 1, shape1 = 2, shape2 = 3,
         elems = [[[65025, 65025, 65025], [127.5, 63.75, 89.25]]]\<rparr>, [])"
  by code_simp

text \<open>
  C3: when the hue gate fires and the rotate gate does not, \<open>random_transform\<close> returns
  the float64 array of \<open>random_hue\<close>; only the identity path casts to uint8.
\<close>

theorem random_transform_float_output:
  "random_transform env0 img_light 0.2 0.5 0 0.7 1.43 1 0 5
       [0.5, 0.5, 0.5, 0.5, 0.25, 0.5, 0.5, 0.9] =
     Inr (F64 \<lparr>shape0 = 1, shape1 = 2, shape2 = 3,
               elems = [[[65025, 65025, 65025], [127.5, 63.75, 89.25]]]\<rparr>, [])"
  by code_simp

section \<open>\<open>random_transform\<close>: the identity gate and the cleanup\<close>

text \<open>
  C8: when the first draw \<open>dice\<close> is below \<open>original\<close>, \<open>random_transform\<close> returns the
  input cast to uint8, which on a uint8 canvas is the input itself, whatever the other
  thresholds; the random source it leaves is the one after this single draw, so no later
  gate is drawn.
\<close>

theorem random_transform_identity_gate:
  assumes "np_uniform env 0 1 g = (dice, g1)" and "dice < original"
  shows "random_transform env img original invert scale min_scale max_scale hue rotate' angle_std g
         = Inr (U8 (astype_uint8 img), g1)
       \<and> astype_uint8 img = img"
  using assms by (simp add: random_transform_def astype_uint8_def)

theorem random_transform_identity_gate_witness:
  "np_uniform env0 0 1 [0.5, 0.25] = (0.5, [0.25]) \<and> (0.5::real) < 1
   \<and> random_transform env0 img_light 1 0.5 1 0.7 1.43 1 1 5 [0.5, 0.25] = Inr (U8 img_light, [0.25])"
proof -
  have d: "np_uniform env0 0 1 [0.5, 0.25] = (0.5, [0.25])" by (simp add: env0_def)
  have lt: "(0.5::real) < 1" by simp
  from random_transform_identity_gate [OF d lt, of img_light "0.5" 1 "0.7" "1.43" 1 1 5] d lt
  show ?thesis by simp
qed

lemma no_value_between_snap_high: "no_value_between 200 255 (snap_high a)"
proof (cases a)
  case (U8 x)
  then show ?thesis by (auto simp: flat_map_elems list_all_iff word_less_def)
next
  case (F64 x)
  then show ?thesis by (auto simp: flat_map_elems list_all_iff)
qed

lemma no_value_between_snap_low: "no_value_between 0 55 (snap_low a)"
proof (cases a)
  case (U8 x)
  then show ?thesis by (auto simp: flat_map_elems list_all_iff word_less_def)
next
  case (F64 x)
  then show ?thesis by (auto simp: flat_map_elems list_all_iff)
qed

lemma unat_invert_snap:
  "unat (if 200 < 255 - x then 255 else 255 - (x::u8))
     = (if 200 < 255 - unat x then 255 else 255 - unat x)"
  by (simp add: word_less_nat_alt unat_255_minus)

lemma unat_clean_snap:
  "unat (if x < 55 then 0 else (x::u8)) = (if unat x < 55 then 0 else unat x)"
  by (simp add: word_less_nat_alt)

text \<open>
  C5, as amended: on a run that does not take the identity gate, either the scale gate
  fires and \<open>random_scale\<close> raises, and then \<open>random_transform\<close> raises the same error and
  no cleanup runs; or the scale, hue and rotate gates leave \<open>img_trf\<close>, whichever of them
  fired, and exactly one cleanup runs. If the last draw is below \<open>invert\<close>, every element
  \<open>x\<close> becomes \<open>255 - x\<close>, and then 255 where that is above 200, so no output value lies
  strictly between 200 and 255. Otherwise every element below 55 becomes 0 and the others
  stay, so no output value lies strictly between 0 and 55.
\<close>

theorem random_transform_cleanup:
  assumes "np_uniform env 0 1 g = (d0, g1)" and "\<not> d0 < original"
  shows "(\<forall>e. gates env img scale min_scale max_scale hue rotate' angle_std g1 = Inl e \<longrightarrow>
            random_transform env img original invert scale min_scale max_scale hue rotate'
              angle_std g = Inl e)
       \<and> (\<forall>img_trf g2 dice g3.
            gates env img scale min_scale max_scale hue rotate' angle_std g1 = Inr (img_trf, g2)
            \<and> np_uniform env 0 1 g2 = (dice, g3) \<longrightarrow>
            (\<exists>out. random_transform env img original invert scale min_scale max_scale hue
                      rotate' angle_std g = Inr (out, g3)
               \<and> (dice < invert \<longrightarrow>
                    (\<forall>a. img_trf = U8 a \<longrightarrow>
                       out = U8 (map_elems (\<lambda>x. if 200 < 255 - x then 255 else 255 - x) a)
                       \<and> map unat (flat (map_elems (\<lambda>x. if 200 < 255 - x then 255 else 255 - x) a))
                           = map (\<lambda>x. if 200 < 255 - unat x then 255 else 255 - unat x) (flat a))
                  \<and> (\<forall>a. img_trf = F64 a \<longrightarrow>
                       out = F64 (map_elems (\<lambda>x. if 200 < fl64 env (255 - x) then 255
                                                 else fl64 env (255 - x)) a))
                  \<and> no_value_between 200 255 out)
               \<and> (\<not> dice < invert \<longrightarrow>
                    (\<forall>a. img_trf = U8 a \<longrightarrow>
                       out = U8 (map_elems (\<lambda>x. if x < 55 then 0 else x) a)
                       \<and> map unat (flat (map_elems (\<lambda>x. if x < 55 then 0 else x) a))
                           = map (\<lambda>x. if unat x < 55 then 0 else unat x) (flat a))
                  \<and> (\<forall>a. img_trf = F64 a \<longrightarrow>
                       out = F64 (map_elems (\<lambda>x. if x < 55 then 0 else x) a))
                  \<and> no_value_between 0 55 out)))"
proof (intro conjI allI impI)
  fix e
  assume "gates env img scale min_scale max_scale hue rotate' angle_std g1 = Inl e"
  with assms show "random_transform env img original invert scale min_scale max_scale hue rotate'
              angle_std g = Inl e"
    by (simp add: random_transform_def)
next
  fix img_trf g2 dice g3
  assume h: "gates env img scale min_scale max_scale hue rotate' angle_std g1 = Inr (img_trf, g2)
            \<and> np_uniform env 0 1 g2 = (dice, g3)"
  let ?out = "if dice < invert then snap_high (invert_img env img_trf) else snap_low img_trf"
  have rt: "random_transform env img original invert scale min_scale max_scale hue
                      rotate' angle_std g = Inr (?out, g3)"
    using assms h by (simp add: random_transform_def)
  have hi: "dice < invert \<longrightarrow>
                    (\<forall>a. img_trf = U8 a \<longrightarrow>
                       ?out = U8 (map_elems (\<lambda>x. if 200 < 255 - x then 255 else 255 - x) a)
                       \<and> map unat (flat (map_elems (\<lambda>x. if 200 < 255 - x then 255 else 255 - x) a))
                           = map (\<lambda>x. if 200 < 255 - unat x then 255 else 255 - unat x) (flat a))
                  \<and> (\<forall>a. img_trf = F64 a \<longrightarrow>
                       ?out = F64 (map_elems (\<lambda>x. if 200 < fl64 env (255 - x) then 255
                                                 else fl64 env (255 - x)) a))
                  \<and> no_value_between 200 255 ?out"
    using no_value_between_snap_high [of "invert_img env img_trf"]
    by (auto simp: map_elems_comp comp_def flat_map_elems unat_invert_snap)
  have lo: "\<not> dice < invert \<longrightarrow>
                    (\<forall>a. img_trf = U8 a \<longrightarrow>
                       ?out = U8 (map_elems (\<lambda>x. if x < 55 then 0 else x) a)
                       \<and> map unat (flat (map_elems (\<lambda>x. if x < 55 then 0 else x) a))
                           = map (\<lambda>x. if unat x < 55 then 0 else unat x) (flat a))
                  \<and> (\<forall>a. img_trf = F64 a \<longrightarrow>
                       ?out = F64 (map_elems (\<lambda>x. if x < 55 then 0 else x) a))
                  \<and> no_value_between 0 55 ?out"
    using no_value_between_snap_low [of img_trf]
    by (auto simp: flat_map_elems unat_clean_snap)
  from rt hi lo show "\<exists>out. random_transform env img original invert scale min_scale max_scale hue
                      rotate' angle_std g = Inr (out, g3)
               \<and> (dice < invert \<longrightarrow>
                    (\<forall>a. img_trf = U8 a \<longrightarrow>
                       out = U8 (map_elems (\<lambda>x. if 200 < 255 - x then 255 else 255 - x) a)
                       \<and> map unat (flat (map_elems (\<lambda>x. if 200 < 255 - x then 255 else 255 - x) a))
                           = map (\<lambda>x. if 200 < 255 - unat x then 255 else 255 - unat x) (flat a))
                  \<and> (\<forall>a. img_trf = F64 a \<longrightarrow>
                       out = F64 (map_elems (\<lambda>x. if 200 < fl64 env (255 - x) then 255
                                                 else fl64 env (255 - x)) a))
                  \<and> no_value_between 200 255 out)
               \<and> (\<not> dice < invert \<longrightarrow>
                    (\<forall>a. img_trf = U8 a \<longrightarrow>
                       out = U8 (map_elems (\<lambda>x. if x < 55 then 0 else x) a)
                       \<and> map unat (flat (map_elems (\<lambda>x. if x < 55 then 0 else x) a))
                           = map (\<lambda>x. if unat x < 55 then 0 else unat x) (flat a))
                  \<and> (\<forall>a. img_trf = F64 a \<longrightarrow>
                       out = F64 (map_elems (\<lambda>x. if x < 55 then 0 else x) a))
                  \<and> no_value_between 0 55 out)"
    by blast
qed

lemma gates_light: "gates env0 img_light 0 0.7 1.43 0 0 5 [0.5, 0.5, 0.5, 0.25] = Inr (U8 img_light, [0.25])"
  by code_simp

lemma gates_light': "gates env0 img_light 0 0.7 1.43 0 0 5 [0.5, 0.5, 0.5, 0.75] = Inr (U8 img_light, [0.75])"
  by code_simp

lemma inv_light: "map_elems (\<lambda>x. if 200 < 255 - x then 255 else 255 - x) img_light
    = gray2rgb [[0, 255]]"
  by code_simp

lemma clean_light: "map_elems (\<lambda>x. if x < 55 then 0 else x) img_light = gray2rgb [[255, 0]]"
  by code_simp

theorem random_transform_cleanup_witness:
  "np_uniform env0 0 1 [0.5, 0.5, 0.5, 0.5, 0.25] = (0.5, [0.5, 0.5, 0.5, 0.25])
   \<and> \<not> (0.5::real) < 0.2
   \<and> gates env0 img_light 0 0.7 1.43 0 0 5 [0.5, 0.5, 0.5, 0.25] = Inr (U8 img_light, [0.25])
   \<and> np_uniform env0 0 1 [0.25] = (0.25, [])
   \<and> (0.25::real) < 0.5
   \<and> random_transform env0 img_light 0.2 0.5 0 0.7 1.43 0 0 5 [0.5, 0.5, 0.5, 0.5, 0.25]
        = Inr (U8 (gray2rgb [[0, 255]]), [])
   \<and> no_value_between 200 255 (U8 (gray2rgb [[0, 255]]))
   \<and> gates env0 img_light 0 0.7 1.43 0 0 5 [0.5, 0.5, 0.5, 0.75] = Inr (U8 img_light, [0.75])
   \<and> np_uniform env0 0 1 [0.75] = (0.75, [])
   \<and> \<not> (0.75::real) < 0.5
   \<and> random_transform env0 img_light 0.2 0.5 0 0.7 1.43 0 0 5 [0.5, 0.5, 0.5, 0.5, 0.75]
        = Inr (U8 (gray2rgb [[255, 0]]), [])
   \<and> no_value_between 0 55 (U8 (gray2rgb [[255, 0]]))"
proof -
  have d0: "np_uniform env0 0 1 [0.5, 0.5, 0.5, 0.5, 0.25] = (0.5, [0.5, 0.5, 0.5, 0.25])"
    by (simp add: env0_def)
  have n: "\<not> (0.5::real) < 0.2" by simp
  have d: "np_uniform env0 0 1 [0.25] = (0.25, [])" by (simp add: env0_def)
  have lt: "(0.25::real) < 0.5" by simp
  note t = random_transform_cleanup [OF d0 n, THEN conjunct2, rule_format,
      OF conjI [OF gates_light d], of "0.5"]
  then obtain out where
    "random_transform env0 img_light 0.2 0.5 0 0.7 1.43 0 0 5 [0.5, 0.5, 0.5, 0.5, 0.25]
       = Inr (out, [])"
    and "out = U8 (map_elems (\<lambda>x. if 200 < 255 - x then 255 else 255 - x) img_light)"
    and "no_value_between 200 255 out"
    using lt by auto
  then have a: "random_transform env0 img_light 0.2 0.5 0 0.7 1.43 0 0 5
       [0.5, 0.5, 0.5, 0.5, 0.25] = Inr (U8 (gray2rgb [[0, 255]]), [])"
    and a': "no_value_between 200 255 (U8 (gray2rgb [[0, 255]]))"
    by (simp_all add: inv_light)
  have d0': "np_uniform env0 0 1 [0.5, 0.5, 0.5, 0.5, 0.75] = (0.5, [0.5, 0.5, 0.5, 0.75])"
    by (simp add: env0_def)
  have d': "np_uniform env0 0 1 [0.75] = (0.75, [])" by (simp add: env0_def)
  have ge: "\<not> (0.75::real) < 0.5" by simp
  note t' = random_transform_cleanup [OF d0' n, THEN conjunct2, rule_format,
      OF conjI [OF gates_light' d'], of "0.5"]
  then obtain out' where
    "random_transform env0 img_light 0.2 0.5 0 0.7 1.43 0 0 5 [0.5, 0.5, 0.5, 0.5, 0.75]
       = Inr (out', [])"
    and "out' = U8 (map_elems (\<lambda>x. if x < 55 then 0 else x) img_light)"
    and "no_value_between 0 55 out'"
    using ge by auto
  then have b: "random_transform env0 img_light 0.2 0.5 0 0.7 1.43 0 0 5
       [0.5, 0.5, 0.5, 0.5, 0.75] = Inr (U8 (gray2rgb [[255, 0]]), [])"
    and b': "no_value_between 0 55 (U8 (gray2rgb [[255, 0]]))"
    by (simp_all add: clean_light)
  show ?thesis using d0 n gates_light d lt a a' gates_light' d' ge b b' by simp
qed

text \<open>
  C5 as stated fails: with the default thresholds on the canvas with one lit row, the
  first draw 0.5 is not below \<open>original = 0.2\<close>, the scale gate fires, \<open>random_scale\<close>
  raises ZeroDivisionError, and neither cleanup runs.
\<close>

theorem random_transform_no_cleanup_counterexample:
  "np_uniform env0 0 1 [0.5, 0.5] = (0.5, [0.5])
   \<and> \<not> (0.5::real) < 0.2
   \<and> wf img_row
   \<and> content_extent img_row = Inr (1, 1, 1, 2)
   \<and> random_transform env0 img_row 0.2 0.5 1 0.7 1.43 1 1 5 [0.5, 0.5] = Inl ZeroDivisionError"
  by code_simp


section \<open>Shapes\<close>

lemma scale_step_resampled:
  "scale_step env img min_scale max_scale g = Inr (img_scale, g') \<Longrightarrow>
   \<exists>f. imresize_factor env img f = Some img_scale"
  by (auto simp: scale_step_def Let_def split: sum.splits prod.splits if_splits option.splits)

lemma np_pad_shape:
  assumes "np_pad c (pad_split H (int (shape0 c))) (pad_split W (int (shape1 c))) = Inr out"
  shows "int (shape0 out) = H \<and> int (shape1 out) = W"
proof -
  obtain up down where ud: "pad_split H (int (shape0 c)) = (up, down)"
    by (cases "pad_split H (int (shape0 c))")
  obtain left right where lr: "pad_split W (int (shape1 c)) = (left, right)"
    by (cases "pad_split W (int (shape1 c))")
  from assms have nn: "0 \<le> up" "0 \<le> down" "0 \<le> left" "0 \<le> right"
    and sh: "shape0 out = nat up + shape0 c + nat down"
      "shape1 out = nat left + shape1 c + nat right"
    by (simp_all add: ud lr np_pad_Inr)
  from pad_split_sum [OF ud] pad_split_sum [OF lr] nn sh show ?thesis by linarith
qed

lemma random_scale_shape:
  assumes rs: "random_scale env img min_scale max_scale min_pad g = Inr (out, g')"
    and ok: "collab_ok env" and wf: "wf img"
  shows "shape0 out = shape0 img \<and> shape1 out = shape1 img \<and> wf out"
proof -
  from random_scale_Inr_scale_step [OF rs] obtain img_scale g1
    where ss: "scale_step env img min_scale max_scale g = Inr (img_scale, g1)" by force
  from scale_step_resampled [OF ss] ok wf have wfs: "wf img_scale"
    by (auto simp: collab_ok_def)
  from rs ss obtain ext where ce: "content_extent img_scale = Inr ext"
    by (auto simp: random_scale_def Let_def split: sum.splits)
  show ?thesis
  proof (cases "too_big (int (shape0 img)) (int (shape1 img)) min_pad ext")
    case True
    with rs ss ce have "out = img" by (simp add: random_scale_def)
    with wf show ?thesis by simp
  next
    case False
    let ?c = "crop img_scale (clip_extent (int (shape0 img)) (int (shape1 img)) min_pad ext)"
    from rs random_scale_non_fallback [OF ss ce False]
    have pad: "np_pad ?c (pad_split (int (shape0 img)) (int (shape0 ?c)))
                 (pad_split (int (shape1 img)) (int (shape1 ?c))) = Inr out"
      by (auto simp: Let_def split: sum.splits)
    from np_pad_shape [OF pad] wf_np_pad [OF wf_crop [OF wfs] pad]
    show ?thesis by simp
  qed
qed

lemma random_scale_returns:
  assumes ss: "scale_step env img min_scale max_scale g = Inr (img_scale, g')"
    and ce: "content_extent img_scale = Inr ext"
    and mp: "0 \<le> min_pad"
  shows "\<exists>out. random_scale env img min_scale max_scale min_pad g = Inr (out, g')"
proof (cases "too_big (int (shape0 img)) (int (shape1 img)) min_pad ext")
  case True
  with ss ce show ?thesis by (simp add: random_scale_def)
next
  case False
  let ?c = "crop img_scale (clip_extent (int (shape0 img)) (int (shape1 img)) min_pad ext)"
  from clip_crop_bound [OF ss ce mp]
  have "int (shape0 ?c) \<le> int (shape0 img)" "int (shape1 ?c) \<le> int (shape1 img)" by simp_all
  then have "pad_split (int (shape0 img)) (int (shape0 ?c)) =
       ((int (shape0 img) - int (shape0 ?c)) div 2,
        (int (shape0 img) - int (shape0 ?c)) - (int (shape0 img) - int (shape0 ?c)) div 2)"
    "pad_split (int (shape1 img)) (int (shape1 ?c)) =
       ((int (shape1 img) - int (shape1 ?c)) div 2,
        (int (shape1 img) - int (shape1 ?c)) - (int (shape1 img) - int (shape1 ?c)) div 2)"
    "0 \<le> (int (shape0 img) - int (shape0 ?c)) div 2"
    "0 \<le> (int (shape0 img) - int (shape0 ?c)) - (int (shape0 img) - int (shape0 ?c)) div 2"
    "0 \<le> (int (shape1 img) - int (shape1 ?c)) div 2"
    "0 \<le> (int (shape1 img) - int (shape1 ?c)) - (int (shape1 img) - int (shape1 ?c)) div 2"
    by (simp_all add: pad_split_nonneg)
  then show ?thesis
    using random_scale_non_fallback [OF ss ce False] by (simp add: np_pad_def Let_def)
qed

lemma set_channel_shape:
  "shape0 (set_channel k v a) = shape0 a" "shape1 (set_channel k v a) = shape1 a"
  "shape2 (set_channel k v a) = shape2 a" "wf (set_channel k v a) = wf a"
  by (simp_all add: set_channel_def wf_def list_all_iff)

lemma set_where_shape:
  "shape0 (set_where m v a) = shape0 a" "shape1 (set_where m v a) = shape1 a"
  "shape2 (set_where m v a) = shape2 a"
  by (simp_all add: set_where_def)

lemma wf_set_where:
  assumes "wf m" "wf a" "same_shape m a"
  shows "wf (set_where m v a)"
proof -
  have lm: "length (elems m) = shape0 a" and la: "length (elems a) = shape0 a"
    using assms by (simp_all add: wf_def same_shape_def)
  have rm: "\<And>r. r \<in> set (elems m) \<Longrightarrow> length r = shape1 a \<and> (\<forall>p \<in> set r. length p = shape2 a)"
    and ra: "\<And>r. r \<in> set (elems a) \<Longrightarrow> length r = shape1 a \<and> (\<forall>p \<in> set r. length p = shape2 a)"
    using assms by (auto simp: wf_def same_shape_def list_all_iff)
  have "length (map2 (map2 (map2 (\<lambda>m x. if m then v else x))) (elems m) (elems a)) = shape0 a"
    using lm la by simp
  moreover have "length r = shape1 a \<and> (\<forall>p \<in> set r. length p = shape2 a)"
    if "r \<in> set (map2 (map2 (map2 (\<lambda>m x. if m then v else x))) (elems m) (elems a))" for r
  proof -
    from that obtain rm' ra' where z: "(rm', ra') \<in> set (zip (elems m) (elems a))"
      and r: "r = map2 (map2 (\<lambda>m x. if m then v else x)) rm' ra'" by auto
    from z have "rm' \<in> set (elems m)" "ra' \<in> set (elems a)"
      by (auto dest: set_zip_leftD set_zip_rightD)
    with rm ra have l: "length rm' = shape1 a" "length ra' = shape1 a"
      and p: "\<forall>p \<in> set rm'. length p = shape2 a" "\<forall>p \<in> set ra'. length p = shape2 a"
      by simp_all
    have "length r = shape1 a" using l by (simp add: r)
    moreover have "length q = shape2 a" if "q \<in> set r" for q
    proof -
      from that r obtain pm pa where z': "(pm, pa) \<in> set (zip rm' ra')"
        and q: "q = map2 (\<lambda>m x. if m then v else x) pm pa" by auto
      from z' have "pm \<in> set rm'" "pa \<in> set ra'"
        by (auto dest: set_zip_leftD set_zip_rightD)
      with p show ?thesis by (simp add: q)
    qed
    ultimately show ?thesis by simp
  qed
  ultimately show ?thesis by (simp add: wf_def set_where_def list_all_iff)
qed

lemma same_shape_map_elems: "same_shape (map_elems f a) a" "same_shape a (map_elems f a)"
  by (simp_all add: same_shape_def map_elems_def)

lemma random_hue_shape:
  assumes ok: "collab_ok env" and wf: "wf img"
  shows "wf (fst (random_hue env img g)) \<and> same_shape (fst (random_hue env img g)) img"
proof -
  define bg where "bg = bg_value img"
  define ind where "ind = map_elems (\<lambda>x. real (unat x) = bg) img"
  obtain hue g1 where u1: "np_uniform env 0 1 g = (hue, g1)" by (cases "np_uniform env 0 1 g")
  obtain sat g2 where u2: "np_uniform env 0 1 g1 = (sat, g2)" by (cases "np_uniform env 0 1 g1")
  obtain v0 g3 where u3: "np_uniform env 0 0.7 g2 = (v0, g3)"
    by (cases "np_uniform env 0 0.7 g2")
  obtain val g4 where u4: "(if bg = 0 then np_uniform env 0.3 1 g3 else (v0, g3)) = (val, g4)"
    by (cases "if bg = 0 then np_uniform env 0.3 1 g3 else (v0, g3)")
  define hsv where "hsv = map_elems (\<lambda>x. if x < 0 then 0 else x)
     (map_elems (\<lambda>x. if x > 1 then 1 else x)
       (set_channel 2 val (set_channel 1 sat (set_channel 0 hue (rgb2hsv env img)))))"
  have res: "fst (random_hue env img g) =
     map_elems (\<lambda>x. fl64 env (x * 255)) (set_where ind bg (hsv2rgb env hsv))"
    using u1 u2 u3 u4
    by (simp add: random_hue_def Let_def astype_uint8_def bg_def ind_def hsv_def
        split: prod.splits)
  have r: "wf (rgb2hsv env img)" "same_shape (rgb2hsv env img) img"
    using ok wf by (simp_all add: collab_ok_def)
  have h: "wf hsv" "same_shape hsv img"
    using r by (simp_all add: hsv_def wf_map_elems set_channel_shape same_shape_def shape_map_elems)
  then have rgb: "wf (hsv2rgb env hsv)" "same_shape (hsv2rgb env hsv) img"
    using ok by (auto simp: collab_ok_def same_shape_def)
  have i: "wf ind" "same_shape ind (hsv2rgb env hsv)"
    using wf rgb by (simp_all add: ind_def wf_map_elems same_shape_def shape_map_elems)
  from wf_set_where [OF i(1) rgb(1) i(2)] rgb(2)
  show ?thesis
    by (simp add: res wf_map_elems same_shape_def shape_map_elems set_where_shape)
qed

lemma random_rotate_shape:
  assumes "collab_ok env"
  shows "shape0 (fst (random_rotate env a angle_std g)) = fst (arr_shape a)
       \<and> shape1 (fst (random_rotate env a angle_std g)) = fst (snd (arr_shape a))
       \<and> wf (fst (random_rotate env a angle_std g))"
  using assms
  by (cases "arr_shape a") (simp add: random_rotate_def Let_def collab_ok_def split: prod.splits)

lemma arr_shape_invert: "arr_shape (invert_img env a) = arr_shape a"
  "arr_wf (invert_img env a) = arr_wf a"
  by (cases a; simp add: shape_map_elems wf_map_elems)+

lemma arr_shape_snap: "arr_shape (snap_high a) = arr_shape a" "arr_wf (snap_high a) = arr_wf a"
  "arr_shape (snap_low a) = arr_shape a" "arr_wf (snap_low a) = arr_wf a"
  by (cases a; simp add: shape_map_elems wf_map_elems)+

lemma gates_shape:
  assumes gt: "gates env img scale min_scale max_scale hue rotate' angle_std g = Inr (out, g')"
    and ok: "collab_ok env" and wf: "wf img"
  shows "fst (arr_shape out) = shape0 img \<and> fst (snd (arr_shape out)) = shape1 img \<and> arr_wf out"
proof -
  obtain d1 g1 where u1: "np_uniform env 0 1 g = (d1, g1)" by (cases "np_uniform env 0 1 g")
  define sc where "sc = (if d1 < scale then random_scale env img min_scale max_scale 0 g1
                         else Inr (img, g1))"
  from gt u1 obtain t g2 where sc: "sc = Inr (t, g2)"
    by (cases sc) (auto simp: gates_def np_copy_def sc_def split: prod.splits)
  have t: "shape0 t = shape0 img \<and> shape1 t = shape1 img \<and> wf t"
  proof (cases "d1 < scale")
    case True
    with sc have "random_scale env img min_scale max_scale 0 g1 = Inr (t, g2)"
      by (simp add: sc_def)
    from random_scale_shape [OF this ok wf] show ?thesis .
  next
    case False
    with sc wf show ?thesis by (simp add: sc_def)
  qed
  obtain d2 g3 where u2: "np_uniform env 0 1 g2 = (d2, g3)" by (cases "np_uniform env 0 1 g2")
  define hu where "hu = (if d2 < hue then (case random_hue env t g3 of (r, g) \<Rightarrow> (F64 r, g))
                         else (U8 t, g3))"
  obtain t2 g4 where hu: "hu = (t2, g4)" by (cases hu)
  have t2: "fst (arr_shape t2) = shape0 img \<and> fst (snd (arr_shape t2)) = shape1 img \<and> arr_wf t2"
  proof (cases "d2 < hue")
    case True
    with hu have "t2 = F64 (fst (random_hue env t g3))"
      by (auto simp: hu_def split: prod.splits)
    with random_hue_shape [OF ok, of t g3] t show ?thesis by (simp add: same_shape_def)
  next
    case False
    with hu t show ?thesis by (auto simp: hu_def)
  qed
  obtain d3 g5 where u3: "np_uniform env 0 1 g4 = (d3, g5)" by (cases "np_uniform env 0 1 g4")
  have out: "out = (if d3 < rotate' then U8 (fst (random_rotate env t2 angle_std g5)) else t2)"
    using gt u1 sc u2 hu u3
    by (auto simp: gates_def np_copy_def sc_def [symmetric] hu_def [symmetric] split: prod.splits)
  show ?thesis
    using t2 random_rotate_shape [OF ok, of t2 angle_std g5] by (simp add: out)
qed

lemma gates_Inl:
  assumes "gates env img scale min_scale max_scale hue rotate' angle_std g = Inl e"
  shows "\<exists>g1. random_scale env img min_scale max_scale 0 g1 = Inl e"
  using assms
  by (auto simp: gates_def np_copy_def Let_def split: prod.splits sum.splits if_splits)

lemma random_transform_shape:
  assumes rt: "random_transform env img original invert scale min_scale max_scale hue rotate'
                 angle_std g = Inr (out, g')"
    and ok: "collab_ok env" and wf: "wf img"
  shows "fst (arr_shape out) = shape0 img \<and> fst (snd (arr_shape out)) = shape1 img \<and> arr_wf out"
proof -
  obtain d0 g1 where u0: "np_uniform env 0 1 g = (d0, g1)" by (cases "np_uniform env 0 1 g")
  show ?thesis
  proof (cases "d0 < original")
    case True
    with rt u0 have "out = U8 img" by (simp add: random_transform_def astype_uint8_def)
    with wf show ?thesis by simp
  next
    case False
    with rt u0 obtain t g2 where
      gt: "gates env img scale min_scale max_scale hue rotate' angle_std g1 = Inr (t, g2)"
      by (auto simp: random_transform_def split: sum.splits)
    obtain d g3 where u: "np_uniform env 0 1 g2 = (d, g3)" by (cases "np_uniform env 0 1 g2")
    from rt u0 False gt u
    have "out = (if d < invert then snap_high (invert_img env t) else snap_low t)"
      by (simp add: random_transform_def)
    with gates_shape [OF gt ok wf] show ?thesis
      by (simp add: arr_shape_snap arr_shape_invert)
  qed
qed

lemma random_transform_Inl:
  assumes "random_transform env img original invert scale min_scale max_scale hue rotate'
             angle_std g = Inl e"
  shows "\<exists>g1. random_scale env img min_scale max_scale 0 g1 = Inl e"
proof -
  obtain d0 g1 where u0: "np_uniform env 0 1 g = (d0, g1)" by (cases "np_uniform env 0 1 g")
  from assms u0 have "gates env img scale min_scale max_scale hue rotate' angle_std g1 = Inl e"
    by (auto simp: random_transform_def split: if_splits sum.splits prod.splits)
  from gates_Inl [OF this] show ?thesis .
qed

lemma wf_filled: "wf (filled h w c v)"
  by (simp add: filled_def wf_def list_all_iff)

lemma shape_filled: "shape0 (filled h w c v) = h" "shape1 (filled h w c v) = w"
  by (simp_all add: filled_def)

lemma collab_ok_env0: "collab_ok env0"
  by (simp add: collab_ok_def env0_def wf_map_elems shape_map_elems same_shape_def
      wf_filled shape_filled)

lemma random_scale_returns_content:
  assumes ce: "content_extent img = Inr (y0, y1, x0, x1)" and sp: "y0 < y1" "x0 < x1"
    and rs: "\<forall>f. \<exists>r ext. imresize_factor env img f = Some r \<and> content_extent r = Inr ext"
    and mp: "0 \<le> min_pad"
  shows "\<exists>out g'. random_scale env img min_scale max_scale min_pad g = Inr (out, g')"
proof -
  from rs have tot: "\<forall>f. imresize_factor env img f \<noteq> None" by auto
  from sp have ne: "y1 \<noteq> y0" "x1 \<noteq> x0" by simp_all
  from scale_step_returns [OF ce ne tot] obtain img_scale g'
    where ss: "scale_step env img min_scale max_scale g = Inr (img_scale, g')" by blast
  from scale_step_resampled [OF ss] obtain f where f: "imresize_factor env img f = Some img_scale"
    by blast
  from rs obtain r ext where "imresize_factor env img f = Some r" "content_extent r = Inr ext"
    by blast
  with f have "content_extent img_scale = Inr ext" by simp
  from random_scale_returns [OF ss this mp] show ?thesis by blast
qed

lemma random_transform_returns_content:
  assumes ce: "content_extent img = Inr (y0, y1, x0, x1)" and sp: "y0 < y1" "x0 < x1"
    and rs: "\<forall>f. \<exists>r ext. imresize_factor env img f = Some r \<and> content_extent r = Inr ext"
  shows "\<exists>out g'. random_transform env img original invert scale min_scale max_scale hue
                     rotate' angle_std g = Inr (out, g')"
proof (cases "random_transform env img original invert scale min_scale max_scale hue
                 rotate' angle_std g")
  case (Inl e)
  from random_transform_Inl [OF Inl] obtain g1
    where "random_scale env img min_scale max_scale 0 g1 = Inl e" by blast
  moreover from random_scale_returns_content [OF ce sp rs, of 0 min_scale max_scale g1]
  obtain out g' where "random_scale env img min_scale max_scale 0 g1 = Inr (out, g')" by auto
  ultimately show ?thesis by simp
next
  case (Inr r)
  then show ?thesis by (cases r) simp
qed

lemma collab_ok_env_to: "wf big \<Longrightarrow> collab_ok (env_to big)"
  using collab_ok_env0 by (simp add: collab_ok_def env_to_def)

text \<open>
  C6, as amended: with collaborators that keep their contracts and a well-formed canvas
  \<open>img\<close>, \<open>invert_img\<close>, \<open>random_hue\<close> and \<open>random_rotate\<close> return a well-formed array
  with the height and the width of \<open>img\<close>; so does every run of \<open>random_scale\<close> that
  returns, on the fallback path and on the crop-and-pad path, and every run of
  \<open>random_transform\<close> that returns. \<open>random_scale\<close> returns whenever lines 42-58 return a
  resampled canvas, that canvas has content and \<open>min_pad\<close> is not negative; this is so, and
  \<open>random_transform\<close> returns too, whenever the content of \<open>img\<close> spans at least two rows
  and two columns and the resampling of \<open>img\<close> returns a canvas with content for every
  factor. \<open>random_transform\<close> fails only with a failure of \<open>random_scale\<close> on its input.
\<close>

theorem shape_invariance:
  assumes ok: "collab_ok env" and wf: "wf img"
  shows "arr_shape (invert_img env (U8 img)) = (shape0 img, shape1 img, shape2 img)
       \<and> arr_wf (invert_img env (U8 img))
       \<and> shape0 (fst (random_hue env img g)) = shape0 img
       \<and> shape1 (fst (random_hue env img g)) = shape1 img
       \<and> wf (fst (random_hue env img g))
       \<and> shape0 (fst (random_rotate env (U8 img) angle_std g)) = shape0 img
       \<and> shape1 (fst (random_rotate env (U8 img) angle_std g)) = shape1 img
       \<and> wf (fst (random_rotate env (U8 img) angle_std g))
       \<and> (\<forall>out g'. random_scale env img min_scale max_scale min_pad g = Inr (out, g') \<longrightarrow>
             shape0 out = shape0 img \<and> shape1 out = shape1 img \<and> wf out)
       \<and> (\<forall>img_scale g1 ext.
             scale_step env img min_scale max_scale g = Inr (img_scale, g1)
             \<and> content_extent img_scale = Inr ext \<and> 0 \<le> min_pad \<longrightarrow>
             (\<exists>out. random_scale env img min_scale max_scale min_pad g = Inr (out, g1)))
       \<and> (\<forall>out g'. random_transform env img original invert scale min_scale max_scale hue
                       rotate' angle_std g = Inr (out, g') \<longrightarrow>
             fst (arr_shape out) = shape0 img \<and> fst (snd (arr_shape out)) = shape1 img
             \<and> arr_wf out)
       \<and> (\<forall>e. random_transform env img original invert scale min_scale max_scale hue
                  rotate' angle_std g = Inl e \<longrightarrow>
             (\<exists>g1. random_scale env img min_scale max_scale 0 g1 = Inl e))
       \<and> ((\<exists>y0 y1 x0 x1. content_extent img = Inr (y0, y1, x0, x1) \<and> y0 < y1 \<and> x0 < x1)
            \<and> (\<forall>f. \<exists>r ext. imresize_factor env img f = Some r \<and> content_extent r = Inr ext)
            \<longrightarrow>
            (0 \<le> min_pad \<longrightarrow>
               (\<exists>out g'. random_scale env img min_scale max_scale min_pad g = Inr (out, g')
                         \<and> shape0 out = shape0 img \<and> shape1 out = shape1 img \<and> wf out))
            \<and> (\<exists>out g'. random_transform env img original invert scale min_scale max_scale hue
                            rotate' angle_std g = Inr (out, g')
                      \<and> fst (arr_shape out) = shape0 img
                      \<and> fst (snd (arr_shape out)) = shape1 img \<and> arr_wf out))"
proof (intro conjI allI impI)
  show "arr_shape (invert_img env (U8 img)) = (shape0 img, shape1 img, shape2 img)"
    by (simp add: shape_map_elems)
  show "arr_wf (invert_img env (U8 img))" using wf by (simp add: wf_map_elems)
  from random_hue_shape [OF ok wf, of g]
  show "shape0 (fst (random_hue env img g)) = shape0 img"
    and "shape1 (fst (random_hue env img g)) = shape1 img"
    and "wf (fst (random_hue env img g))"
    by (simp_all add: same_shape_def)
  from random_rotate_shape [OF ok, of "U8 img" angle_std g]
  show "shape0 (fst (random_rotate env (U8 img) angle_std g)) = shape0 img"
    and "shape1 (fst (random_rotate env (U8 img) angle_std g)) = shape1 img"
    and "wf (fst (random_rotate env (U8 img) angle_std g))"
    by simp_all
next
  fix out g'
  assume "random_scale env img min_scale max_scale min_pad g = Inr (out, g')"
  from random_scale_shape [OF this ok wf]
  show "shape0 out = shape0 img" and "shape1 out = shape1 img" and "wf out" by simp_all
next
  fix img_scale g1 ext
  assume h: "scale_step env img min_scale max_scale g = Inr (img_scale, g1)
          \<and> content_extent img_scale = Inr ext \<and> 0 \<le> min_pad"
  then have "scale_step env img min_scale max_scale g = Inr (img_scale, g1)"
    and "content_extent img_scale = Inr ext" and "0 \<le> min_pad" by simp_all
  then show "\<exists>out. random_scale env img min_scale max_scale min_pad g = Inr (out, g1)"
    by (rule random_scale_returns)
next
  fix out g'
  assume "random_transform env img original invert scale min_scale max_scale hue
            rotate' angle_std g = Inr (out, g')"
  from random_transform_shape [OF this ok wf]
  show "fst (arr_shape out) = shape0 img" and "fst (snd (arr_shape out)) = shape1 img"
    and "arr_wf out" by simp_all
next
  fix e
  assume "random_transform env img original invert scale min_scale max_scale hue
            rotate' angle_std g = Inl e"
  from random_transform_Inl [OF this]
  show "\<exists>g1. random_scale env img min_scale max_scale 0 g1 = Inl e" .
next
  assume pre: "(\<exists>y0 y1 x0 x1. content_extent img = Inr (y0, y1, x0, x1) \<and> y0 < y1 \<and> x0 < x1)
      \<and> (\<forall>f. \<exists>r ext. imresize_factor env img f = Some r \<and> content_extent r = Inr ext)"
    and mp: "0 \<le> min_pad"
  then obtain y0 y1 x0 x1 where ce: "content_extent img = Inr (y0, y1, x0, x1)"
    and sp: "y0 < y1" "x0 < x1"
    and rs: "\<forall>f. \<exists>r ext. imresize_factor env img f = Some r \<and> content_extent r = Inr ext"
    by blast
  from random_scale_returns_content [OF ce sp rs mp, of min_scale max_scale g]
  obtain out g' where r: "random_scale env img min_scale max_scale min_pad g = Inr (out, g')"
    by blast
  from random_scale_shape [OF r ok wf] r
  show "\<exists>out g'. random_scale env img min_scale max_scale min_pad g = Inr (out, g')
                         \<and> shape0 out = shape0 img \<and> shape1 out = shape1 img \<and> wf out"
    by blast
next
  assume pre: "(\<exists>y0 y1 x0 x1. content_extent img = Inr (y0, y1, x0, x1) \<and> y0 < y1 \<and> x0 < x1)
      \<and> (\<forall>f. \<exists>r ext. imresize_factor env img f = Some r \<and> content_extent r = Inr ext)"
  then obtain y0 y1 x0 x1 where ce: "content_extent img = Inr (y0, y1, x0, x1)"
    and sp: "y0 < y1" "x0 < x1"
    and rs: "\<forall>f. \<exists>r ext. imresize_factor env img f = Some r \<and> content_extent r = Inr ext"
    by blast
  from random_transform_returns_content [OF ce sp rs,
      of original invert scale min_scale max_scale hue rotate' angle_std g]
  obtain out g' where r: "random_transform env img original invert scale min_scale max_scale
      hue rotate' angle_std g = Inr (out, g')"
    by blast
  from random_transform_shape [OF r ok wf] r
  show "\<exists>out g'. random_transform env img original invert scale min_scale max_scale hue
                            rotate' angle_std g = Inr (out, g')
                      \<and> fst (arr_shape out) = shape0 img
                      \<and> fst (snd (arr_shape out)) = shape1 img \<and> arr_wf out"
    by blast
qed

lemma rs_block_to: "random_scale (env_to img_block) img_block 0.7 1.43 0 [0.5] =
    Inr (gray2rgb [[0, 0, 0, 0], [0, 9, 0, 0], [0, 0, 0, 0], [0, 0, 0, 0]], [])"
  by code_simp

lemma rt_block_to: "random_transform (env_to img_block) img_block 0.2 0.5 1 0.7 1.43 1 1 5
    [0.5, 0.5, 0.5, 0.5, 0.5, 0.25, 0.5, 0.5, 0.5, 0.5, 0.75] =
    Inr (U8 (filled 4 4 3 128), [])"
  by code_simp

lemma shape_filled_443: "arr_shape (U8 (filled 4 4 3 (128::u8))) = (4, 4, 3)"
  by code_simp

lemma resample_to: "imresize_factor (env_to big) a f = Some big"
  by (simp add: env_to_def)

theorem shape_invariance_witness:
  "wf img_block \<and> shape0 img_block = 4 \<and> shape1 img_block = 4
   \<and> content_extent img_block = Inr (1, 2, 1, 2) \<and> (1::int) < 2
   \<and> imresize_factor (env_to img_block) img_block 1 = Some img_block
   \<and> shape0 (fst (random_hue (env_to img_block) img_block [0.5, 0.25, 0.5, 0.5])) = 4
   \<and> shape1 (fst (random_rotate (env_to img_block) (U8 img_block) 5 [0.5])) = 4
   \<and> random_scale (env_to img_block) img_block 0.7 1.43 0 [0.5] =
       Inr (gray2rgb [[0, 0, 0, 0], [0, 9, 0, 0], [0, 0, 0, 0], [0, 0, 0, 0]], [])
   \<and> shape0 (gray2rgb [[0::u8, 0, 0, 0], [0, 9, 0, 0], [0, 0, 0, 0], [0, 0, 0, 0]]) = 4
   \<and> random_transform (env_to img_block) img_block 0.2 0.5 1 0.7 1.43 1 1 5
        [0.5, 0.5, 0.5, 0.5, 0.5, 0.25, 0.5, 0.5, 0.5, 0.5, 0.75] = Inr (U8 (filled 4 4 3 128), [])
   \<and> fst (arr_shape (U8 (filled 4 4 3 (128::u8)))) = 4
   \<and> (\<exists>out g'. random_scale (env_to img_block) img_block 0.7 1.43 0 [] = Inr (out, g')
                \<and> shape0 out = 4 \<and> shape1 out = 4)
   \<and> (\<exists>out g'. random_transform (env_to img_block) img_block 0.2 0.5 1 0.7 1.43 1 1 5 []
                  = Inr (out, g') \<and> fst (arr_shape out) = 4)"
proof -
  note t = shape_invariance [OF collab_ok_env_to [OF wf_block] wf_block]
  have pre: "(\<exists>y0 y1 x0 x1. content_extent img_block = Inr (y0, y1, x0, x1) \<and> y0 < y1 \<and> x0 < x1)
      \<and> (\<forall>f. \<exists>r ext. imresize_factor (env_to img_block) img_block f = Some r
                       \<and> content_extent r = Inr ext)"
    using ce_block by (simp add: resample_to)
  have a: "shape0 (fst (random_hue (env_to img_block) img_block [0.5, 0.25, 0.5, 0.5])) = 4"
    using t [of "[0.5, 0.25, 0.5, 0.5]"] by (simp add: shape_block)
  have b: "shape1 (fst (random_rotate (env_to img_block) (U8 img_block) 5 [0.5])) = 4"
    using t [of "[0.5]" 5] by (simp add: shape_block)
  have c: "shape0 (gray2rgb [[0::u8, 0, 0, 0], [0, 9, 0, 0], [0, 0, 0, 0], [0, 0, 0, 0]]) = 4"
    using t [of "[0.5]" 5 "0.7" "1.43" 0] rs_block_to by (simp add: shape_block)
  have d: "fst (arr_shape (U8 (filled 4 4 3 (128::u8)))) = 4"
    using t [of "[0.5, 0.5, 0.5, 0.5, 0.5, 0.25, 0.5, 0.5, 0.5, 0.5, 0.75]" 5 "0.7" "1.43" 0
               "0.2" "0.5" 1 1 1] rt_block_to
    by (simp add: shape_block)
  have e: "(\<exists>out g'. random_scale (env_to img_block) img_block 0.7 1.43 0 [] = Inr (out, g')
                \<and> shape0 out = 4 \<and> shape1 out = 4)
     \<and> (\<exists>out g'. random_transform (env_to img_block) img_block 0.2 0.5 1 0.7 1.43 1 1 5 []
                  = Inr (out, g') \<and> fst (arr_shape out) = 4)"
    using t [of "[]" 5 "0.7" "1.43" 0 "0.2" "0.5" 1 1 1] pre
    by (simp add: shape_block) blast
  show ?thesis
    using wf_block shape_block ce_block a b c d e rs_block_to rt_block_to
    by (simp add: resample_to)
qed

text \<open>
  C6 as stated fails: the canvas with one lit row is well formed, has three channels and
  has content in a row and in two columns, yet \<open>random_scale\<close> and \<open>random_transform\<close>
  (with the default thresholds) raise ZeroDivisionError and return no canvas.
\<close>

theorem shape_invariance_counterexample:
  "wf img_row \<and> shape2 img_row = 3
   \<and> where_nonzero (row_sum img_row) = [1]
   \<and> where_nonzero (col_sum img_row) = [1, 2]
   \<and> random_scale env0 img_row 0.7 1.43 0 [0.5] = Inl ZeroDivisionError
   \<and> random_transform env0 img_row 0.2 0.5 1 0.7 1.43 1 1 5 [0.75, 0.25] = Inl ZeroDivisionError"
  by code_simp

section \<open>\<open>random_hue\<close>: the background positions\<close>

lemma random_hue_form:
  assumes ok: "collab_ok env" and wf: "wf img"
  shows "\<exists>rgb. wf rgb \<and> same_shape rgb img \<and>
           fst (random_hue env img g) =
             map_elems (\<lambda>x. fl64 env (x * 255))
               (set_where (map_elems (\<lambda>x. real (unat x) = bg_value img) img) (bg_value img) rgb)"
proof -
  obtain hue g1 where u1: "np_uniform env 0 1 g = (hue, g1)" by (cases "np_uniform env 0 1 g")
  obtain sat g2 where u2: "np_uniform env 0 1 g1 = (sat, g2)" by (cases "np_uniform env 0 1 g1")
  obtain v0 g3 where u3: "np_uniform env 0 0.7 g2 = (v0, g3)"
    by (cases "np_uniform env 0 0.7 g2")
  obtain val g4 where
    u4: "(if bg_value img = 0 then np_uniform env 0.3 1 g3 else (v0, g3)) = (val, g4)"
    by (cases "if bg_value img = 0 then np_uniform env 0.3 1 g3 else (v0, g3)")
  define hsv where "hsv = map_elems (\<lambda>x. if x < 0 then 0 else x)
     (map_elems (\<lambda>x. if x > 1 then 1 else x)
       (set_channel 2 val (set_channel 1 sat (set_channel 0 hue (rgb2hsv env img)))))"
  have res: "fst (random_hue env img g) =
     map_elems (\<lambda>x. fl64 env (x * 255))
       (set_where (map_elems (\<lambda>x. real (unat x) = bg_value img) img) (bg_value img)
          (hsv2rgb env hsv))"
    using u1 u2 u3 u4
    by (simp add: random_hue_def Let_def astype_uint8_def hsv_def split: prod.splits)
  have r: "wf (rgb2hsv env img)" "same_shape (rgb2hsv env img) img"
    using ok wf by (simp_all add: collab_ok_def)
  have h: "wf hsv" "same_shape hsv img"
    using r by (simp_all add: hsv_def wf_map_elems set_channel_shape same_shape_def shape_map_elems)
  then have "wf (hsv2rgb env hsv)" "same_shape (hsv2rgb env hsv) img"
    using ok by (auto simp: collab_ok_def same_shape_def)
  with res show ?thesis by blast
qed

lemma wf_nth:
  assumes "wf a" "i < shape0 a" "j < shape1 a"
  shows "i < length (elems a)" "j < length (elems a ! i)" "length (elems a ! i ! j) = shape2 a"
proof -
  show i: "i < length (elems a)" using assms by (simp add: wf_def)
  then have ri: "elems a ! i \<in> set (elems a)" by simp
  with assms show j: "j < length (elems a ! i)" by (auto simp: wf_def list_all_iff)
  then have "elems a ! i ! j \<in> set (elems a ! i)" by simp
  with ri assms(1) show "length (elems a ! i ! j) = shape2 a"
    by (auto simp: wf_def list_all_iff)
qed

lemma elem_at_map_elems:
  assumes "wf a" "i < shape0 a" "j < shape1 a" "k < shape2 a"
  shows "elem_at (map_elems f a) i j k = f (elem_at a i j k)"
  using wf_nth [OF assms(1-3)] assms(4) by (simp add: elem_at_def map_elems_def)

lemma elem_at_set_where:
  assumes "wf m" "wf a" "same_shape m a" "i < shape0 a" "j < shape1 a" "k < shape2 a"
  shows "elem_at (set_where m v a) i j k = (if elem_at m i j k then v else elem_at a i j k)"
proof -
  have im: "i < shape0 m" "j < shape1 m" "k < shape2 m"
    using assms by (simp_all add: same_shape_def)
  note a = wf_nth [OF assms(2) assms(4,5)] and m = wf_nth [OF assms(1) im(1,2)]
  show ?thesis using a m assms(6) im(3)
    by (simp add: elem_at_def set_where_def)
qed

text \<open>
  At every position that held the background value, the result of \<open>random_hue\<close> is
  \<open>bg_value * 255\<close>: \<open>0\<close> on a dark background, and \<open>255 * 255\<close> on a light one.
\<close>

lemma random_hue_background:
  assumes ok: "collab_ok env" and wf: "wf img"
    and i: "i < shape0 img" and j: "j < shape1 img" and k: "k < shape2 img"
    and bg: "real (unat (elem_at img i j k)) = bg_value img"
  shows "elem_at (fst (random_hue env img g)) i j k = fl64 env (bg_value img * 255)"
proof -
  let ?ind = "map_elems (\<lambda>x. real (unat x) = bg_value img) img"
  from random_hue_form [OF ok wf, of g] obtain rgb where rgb: "wf rgb" "same_shape rgb img"
    and res: "fst (random_hue env img g) =
        map_elems (\<lambda>x. fl64 env (x * 255)) (set_where ?ind (bg_value img) rgb)"
    by blast
  have ir: "i < shape0 rgb" "j < shape1 rgb" "k < shape2 rgb"
    using rgb i j k by (simp_all add: same_shape_def)
  have wi: "wf ?ind" "same_shape ?ind rgb"
    using wf rgb by (simp_all add: wf_map_elems same_shape_def shape_map_elems)
  have ws: "wf (set_where ?ind (bg_value img) rgb)" by (rule wf_set_where [OF wi(1) rgb(1) wi(2)])
  have "elem_at ?ind i j k = (real (unat (elem_at img i j k)) = bg_value img)"
    by (rule elem_at_map_elems [OF wf i j k])
  with bg have "elem_at ?ind i j k" by simp
  then have "elem_at (set_where ?ind (bg_value img) rgb) i j k = bg_value img"
    using elem_at_set_where [OF wi(1) rgb(1) wi(2) ir] by simp
  moreover have "elem_at (map_elems (\<lambda>x. fl64 env (x * 255)) (set_where ?ind (bg_value img) rgb)) i j k
      = fl64 env (elem_at (set_where ?ind (bg_value img) rgb) i j k * 255)"
    using ir by (intro elem_at_map_elems [OF ws]) (simp_all add: set_where_shape)
  ultimately show ?thesis by (simp add: res)
qed


text \<open>
  The slice of line 87 on an extent inside the array: \<open>y_max - y_min\<close> rows and
  \<open>x_max - x_min\<close> columns, one less on each axis than the inclusive extent holds.
\<close>

lemma crop_inside:
  assumes "0 \<le> y0" "y0 \<le> y1" "y1 < int (shape0 a)" "0 \<le> x0" "x0 \<le> x1" "x1 < int (shape1 a)"
  shows "shape0 (crop a (y0, y1, x0, x1)) = nat (y1 - y0)"
    and "shape1 (crop a (y0, y1, x0, x1)) = nat (x1 - x0)"
  using assms by (simp_all add: shape_crop slice_bounds_def Let_def min_def max_def)

end
